theory Spec2Isabelle
  imports Main "HOL-Library.AList"
begin

section \<open>Constants (pkg/constants/constants.go)\<close>

definition AnnotationExecuteStatus :: string where
  "AnnotationExecuteStatus = ''privileged-command-status''"

definition AnnotationExecuteContainer :: string where
  "AnnotationExecuteContainer = ''privileged-command-container''"

definition AnnotationExecuteAction :: string where
  "AnnotationExecuteAction = ''privileged-command-action''"

definition StatusActive :: string where
  "StatusActive = ''active''"

definition StatusInProgress :: string where
  "StatusInProgress = ''in-progress''"

definition StatusDone :: string where
  "StatusDone = ''done''"

definition StatusError :: string where
  "StatusError = ''error''"

definition PrivilegeContainer :: string where
  "PrivilegeContainer = ''priv-pod''"

definition PodRunning :: string where
  "PodRunning = ''Running''"

section \<open>Data model\<close>

text \<open>
  A Go \<open>error\<close> value is its message; a run-time panic (slice bounds out of range, nil
  pointer dereference) is the separate outcome \<open>Panic\<close>. A Go function returning
  \<open>error\<close> returns \<open>failure + unit\<close> here, one returning \<open>(string, error)\<close> returns
  \<open>failure + string\<close>.
\<close>

datatype failure = Err string | Panic

fun wrapErr :: "string \<Rightarrow> failure \<Rightarrow> failure" where
  "wrapErr prefix (Err e) = Err (prefix @ e)"
| "wrapErr prefix Panic = Panic"

record containerStatus =
  StatusName :: string
  ContainerID :: string

record container =
  ContainerName :: string
  Image :: string
  ImagePullPolicy :: string
  Privileged :: "bool option"
  VolumeMounts :: "(string \<times> string) list"

text \<open>
  The fields of \<open>v1.Pod\<close> that the controller reads or writes. A Go map is an association
  list with distinct keys, in the (arbitrary) order in which \<open>range\<close> produces them; the
  nil map is \<open>None\<close>.
\<close>

record pod =
  Name :: string
  Namespace :: string
  Annotations :: "(string \<times> string) list option"
  NodeName :: string
  ServiceAccountName :: string
  HostPID :: bool
  RestartPolicy :: string
  Containers :: "container list"
  Volumes :: "(string \<times> string) list"
  InitContainerStatuses :: "containerStatus list"
  ContainerStatuses :: "containerStatus list"
  Phase :: string

record cmdArgs =
  PrivPodTimeout :: int
  ArgsNamespace :: string
  ArgsImage :: string
  Serviceaccount :: string

record requestSpec =
  privPodName :: string
  reqID :: string

record remoteCmdExecutor =
  rceNamespace :: string
  rceRequestSpec :: requestSpec
  rceContainer :: string
  rceContainerID :: string
  rcePrivilegeContainer :: string

text \<open>Reading a Go \<open>map[string]string\<close>: a missing key, or any key of the nil map, reads as the empty string.\<close>

definition annotation :: "(string \<times> string) list option \<Rightarrow> string \<Rightarrow> string" where
  "annotation m k =
     (case m of None \<Rightarrow> []
      | Some al \<Rightarrow> (case map_of al k of None \<Rightarrow> [] | Some v \<Rightarrow> v))"

definition entries :: "(string \<times> string) list option \<Rightarrow> (string \<times> string) list" where
  "entries m = (case m of None \<Rightarrow> [] | Some al \<Rightarrow> al)"

section \<open>The Kubernetes client, as the code uses it\<close>

text \<open>
  The annotation part of a strategic merge patch: \<open>(k, Some v)\<close> sets key \<open>k\<close> to \<open>v\<close>,
  \<open>(k, None)\<close> removes it. The two snapshots the controller compares differ in their
  annotations only, so the patch of \<open>strategicpatch.CreateTwoWayMergePatch\<close> sets the keys
  that are new or have a new value and removes the keys that are gone. (When the last
  annotation goes, the patch of the library removes the annotation map as a whole; the
  model removes the keys of the original one by one.)
\<close>

type_synonym patch = "(string \<times> string option) list"

definition CreateTwoWayMergePatch :: "pod \<Rightarrow> pod \<Rightarrow> patch" where
  "CreateTwoWayMergePatch original modified =
     (let a = entries (Annotations original); b = entries (Annotations modified)
      in map (\<lambda>(k, v). (k, Some v)) (filter (\<lambda>(k, v). map_of a k \<noteq> Some v) b)
         @ map (\<lambda>(k, v). (k, None)) (filter (\<lambda>(k, v). map_of b k = None) a))"

datatype watchEvent = PodEvent pod | OtherEvent

datatype execResult =
    ExecutorError string
  | Streamed string string "string option"

text \<open>
  \<open>kubernetes.Interface\<close> and the SPDY executor, over a state \<open>'w\<close> of the world outside the
  controller. Every call returns its Go result and the world after the call.
  \<open>Get\<close> returns the pair of Go: a pod pointer, which may be nil, and an error.
  \<open>Watch\<close> returns the events that the result channel delivers, each within the timeout of
  the one before; after the last one the timeout fires. \<open>OtherEvent\<close> is an event whose
  object is not a pod. \<open>Exec\<close> is \<open>NewSPDYExecutor\<close> followed by \<open>Stream\<close>:
  \<open>ExecutorError\<close> when the executor cannot be set up, else standard output, standard error
  and the error of the stream.
\<close>

record 'w client =
  Create :: "pod \<Rightarrow> 'w \<Rightarrow> string option \<times> 'w"
  Get :: "string \<Rightarrow> string \<Rightarrow> 'w \<Rightarrow> (pod option \<times> string option) \<times> 'w"
  Delete :: "string \<Rightarrow> string \<Rightarrow> 'w \<Rightarrow> string option \<times> 'w"
  Patch :: "string \<Rightarrow> string \<Rightarrow> patch \<Rightarrow> 'w \<Rightarrow> string option \<times> 'w"
  Watch :: "string \<Rightarrow> string \<Rightarrow> 'w \<Rightarrow> (string + watchEvent list) \<times> 'w"
  Exec :: "string \<Rightarrow> string \<Rightarrow> string \<Rightarrow> string list \<Rightarrow> 'w \<Rightarrow> execResult \<times> 'w"

section \<open>Formatting and string helpers of the Go library\<close>

fun digits_of :: "nat \<Rightarrow> string" where
  "digits_of n =
     (if n < 10 then [''0123456789'' ! n]
      else digits_of (n div 10) @ [''0123456789'' ! (n mod 10)])"

declare digits_of.simps [simp del]

text \<open>The verb \<open>%d\<close>.\<close>

definition show_int :: "int \<Rightarrow> string" where
  "show_int i = (if i < 0 then CHR ''-'' # digits_of (nat (- i)) else digits_of (nat i))"

fun join :: "string list \<Rightarrow> string" where
  "join [] = []"
| "join [x] = x"
| "join (x # y # ys) = x @ '' '' @ join (y # ys)"

text \<open>The verb \<open>%v\<close> on a \<open>[]string\<close>.\<close>

definition show_strings :: "string list \<Rightarrow> string" where
  "show_strings xs = ''['' @ join xs @ '']''"

definition isSpace :: "char \<Rightarrow> bool" where
  "isSpace c = (c \<in> set [CHR '' '', CHR 0x09, CHR 0x0A, CHR 0x0B, CHR 0x0C, CHR 0x0D])"

fun fieldsFrom :: "string \<Rightarrow> string \<Rightarrow> string list" where
  "fieldsFrom [] cur = (if cur = [] then [] else [cur])"
| "fieldsFrom (c # cs) cur =
     (if isSpace c then (if cur = [] then fieldsFrom cs [] else cur # fieldsFrom cs [])
      else fieldsFrom cs (cur @ [c]))"

text \<open>
  \<open>strings.Fields\<close> on the white space of ASCII. The library also splits at the Unicode
  spaces beyond ASCII (U+0085, U+00A0 and others), which are ordinary bytes here.
\<close>

definition Fields :: "string \<Rightarrow> string list" where
  "Fields s = fieldsFrom s []"

text \<open>
  \<open>strings.Replace(s, "_", "-", -1)\<close> and \<open>strings.ToLower\<close>. The model lowers the
  letters A to Z; the library also lowers the letters beyond ASCII, which the names of
  Kubernetes objects do not hold.
\<close>

definition replaceUnderscore :: "string \<Rightarrow> string" where
  "replaceUnderscore s = map (\<lambda>c. if c = CHR ''_'' then CHR ''-'' else c) s"

definition ToLower :: "string \<Rightarrow> string" where
  "ToLower s =
     map (\<lambda>c. let n = (of_char c :: nat) in if 65 \<le> n \<and> n \<le> 90 then char_of (n + 32) else c) s"

section \<open>Annotation helpers (pkg/privexecutor/helper.go)\<close>

text \<open>
  \<open>json.Marshal\<close> of a pod is the snapshot of its value; it does not fail on a
  \<open>v1.Pod\<close>, and neither does the computation of the patch from two such snapshots.
\<close>

definition applyPatchForAnnotation ::
  "'w client \<Rightarrow> string \<Rightarrow> pod \<Rightarrow> pod \<Rightarrow> pod \<Rightarrow> 'w \<Rightarrow> (failure + unit) \<times> 'w" where
  "applyPatchForAnnotation cl namespace newPod modifiedPod newPodResource w =
     (let p = CreateTwoWayMergePatch newPod modifiedPod
      in case Patch cl namespace (Name newPodResource) p w of
           (Some e, w') \<Rightarrow>
             (Inl (Err (''failed to patch annotation to pod '' @ Name newPodResource @ '': '' @ e)), w')
         | (None, w') \<Rightarrow> (Inr (), w'))"

text \<open>
  The pod object is mutated in place before the patch is sent, so the pod returned is the
  mutated one also when the patch fails.
\<close>

definition applyAnnotationUpdateOnPod ::
  "'w client \<Rightarrow> string \<Rightarrow> (string \<times> string) list \<Rightarrow> pod \<Rightarrow> 'w
     \<Rightarrow> (failure + unit) \<times> pod \<times> 'w" where
  "applyAnnotationUpdateOnPod cl namespace addOrUpdateAnnotations newPodResource w =
     (let newPod = newPodResource;
          anns = (case Annotations newPodResource of None \<Rightarrow> [] | Some al \<Rightarrow> al);
          anns' = fold (\<lambda>(key, value) al. AList.update key value al) addOrUpdateAnnotations anns;
          modifiedPod = newPodResource\<lparr>Annotations := Some anns'\<rparr>
      in case applyPatchForAnnotation cl namespace newPod modifiedPod modifiedPod w of
           (r, w') \<Rightarrow> (r, modifiedPod, w'))"

text \<open>The loop of \<open>applyAnnotationDeletionOnPod\<close> over the keys to delete.\<close>

fun deleteKeys :: "string list \<Rightarrow> pod \<Rightarrow> (failure + unit) \<times> pod" where
  "deleteKeys [] p = (Inr (), p)"
| "deleteKeys (key # keys) p =
     (if annotation (Annotations p) key = []
      then (Inl (Err (''annotation '' @ key @ '' to be deleted does not exist'')), p)
      else deleteKeys keys (p\<lparr>Annotations := map_option (AList.delete key) (Annotations p)\<rparr>))"

definition applyAnnotationDeletionOnPod ::
  "'w client \<Rightarrow> string \<Rightarrow> string list \<Rightarrow> pod \<Rightarrow> 'w \<Rightarrow> (failure + unit) \<times> pod \<times> 'w" where
  "applyAnnotationDeletionOnPod cl namespace deleteAnnotations newPodResource w =
     (let newPod = newPodResource
      in case deleteKeys deleteAnnotations newPodResource of
           (Inl f, modifiedPod) \<Rightarrow> (Inl f, modifiedPod, w)
         | (Inr u, modifiedPod) \<Rightarrow>
             (case applyPatchForAnnotation cl namespace newPod modifiedPod modifiedPod w of
                (r, w') \<Rightarrow> (r, modifiedPod, w')))"

definition getNodeName :: "pod \<Rightarrow> failure + string" where
  "getNodeName p =
     (let nodeName = NodeName p
      in if nodeName = [] then Inl (Err (''no node name detected for target pod: '' @ Name p))
         else Inr nodeName)"

section \<open>Remote execution (execCommandOnPod, getPID, executeNsenterCommand)\<close>

text \<open>Standard error is logged only; the error of the stream decides.\<close>

definition execCommandOnPod ::
  "'w client \<Rightarrow> remoteCmdExecutor \<Rightarrow> string list \<Rightarrow> 'w \<Rightarrow> (failure + string) \<times> 'w" where
  "execCommandOnPod cl rce command w =
     (case Exec cl (rceNamespace rce) (privPodName (rceRequestSpec rce))
             (rcePrivilegeContainer rce) command w of
        (ExecutorError e, w') \<Rightarrow>
          (Inl (Err (''command '' @ show_strings command @ '' failed to set SPDY executor: '' @ e)), w')
      | (Streamed out errout (Some e), w') \<Rightarrow>
          (Inl (Err (''command '' @ show_strings command @ '' failed: '' @ e)), w')
      | (Streamed out errout None, w') \<Rightarrow> (Inr out, w'))"

text \<open>
  The slice expression \<open>pid[1 : len(pid)-2]\<close> panics unless \<open>1 \<le> len(pid) - 2\<close>; within
  range it keeps the bytes at the indices \<open>1, ..., len(pid) - 3\<close>.
\<close>

definition getPID :: "'w client \<Rightarrow> remoteCmdExecutor \<Rightarrow> 'w \<Rightarrow> (failure + string) \<times> 'w" where
  "getPID cl rce w =
     (let command = [''docker'', ''inspect'', ''--format'',
                     CHR 0x27 # ''{{ .State.Pid }}'' @ [CHR 0x27], rceContainerID rce]
      in case execCommandOnPod cl rce command w of
           (Inl f, w') \<Rightarrow>
             (Inl (wrapErr (''unable to retrieve PID for container '' @ rceContainer rce
                            @ '' with container ID '' @ rceContainerID rce @ '': '') f), w')
         | (Inr pid, w') \<Rightarrow>
             (if int (length pid) - 2 < 1 then (Inl Panic, w')
              else (Inr (take (length pid - 2 - 1) (drop 1 pid)), w')))"

definition executeNsenterCommand ::
  "'w client \<Rightarrow> remoteCmdExecutor \<Rightarrow> string list \<Rightarrow> 'w \<Rightarrow> (failure + string) \<times> 'w" where
  "executeNsenterCommand cl rce command w =
     (case getPID cl rce w of
        (Inl f, w') \<Rightarrow> (Inl (wrapErr ''unable to execute command: '' f), w')
      | (Inr pid, w') \<Rightarrow>
          (let commandToExecute =
                 [''nsenter'', ''--target'', pid, ''--ipc'', ''--uts'', ''--net'', ''--pid''] @ command
           in execCommandOnPod cl rce commandToExecute w'))"

section \<open>The privileged pod (createPrivilegedPod, createPod, deletePod, privilegedPodSpec)\<close>

definition privilegedPodSpec :: "cmdArgs \<Rightarrow> string \<Rightarrow> string \<Rightarrow> string \<Rightarrow> pod" where
  "privilegedPodSpec args podName nodeName namespace =
     \<lparr>Name = podName, Namespace = namespace, Annotations = None, NodeName = nodeName,
      ServiceAccountName = Serviceaccount args, HostPID = True, RestartPolicy = ''Never'',
      Containers = [\<lparr>ContainerName = PrivilegeContainer, Image = ArgsImage args,
                     ImagePullPolicy = ''Always'', Privileged = Some True,
                     VolumeMounts = [(''docker-sock'', ''/var/run/docker.sock'')]\<rparr>],
      Volumes = [(''docker-sock'', ''/var/run/docker.sock'')],
      InitContainerStatuses = [], ContainerStatuses = [], Phase = []\<rparr>"

definition createPod :: "'w client \<Rightarrow> pod \<Rightarrow> 'w \<Rightarrow> (failure + unit) \<times> 'w" where
  "createPod cl p w =
     (case Create cl p w of
        (Some e, w') \<Rightarrow>
          (Inl (Err (''failed to create pod '' @ Name p @ '' on node '' @ NodeName p @ '': '' @ e)), w')
      | (None, w') \<Rightarrow> (Inr (), w'))"

definition deletePod :: "'w client \<Rightarrow> string \<Rightarrow> requestSpec \<Rightarrow> 'w \<Rightarrow> (failure + unit) \<times> 'w" where
  "deletePod cl namespace rs w =
     (case Delete cl namespace (privPodName rs) w of
        (Some e, w') \<Rightarrow> (Inl (Err (''failed to delete pod '' @ privPodName rs @ '': '' @ e)), w')
      | (None, w') \<Rightarrow> (Inr (), w'))"

text \<open>
  The \<open>select\<close> loop over the events of the watch: \<open>Inr True\<close> when an event reports the
  pod Running, \<open>Inr False\<close> when the timeout fires first. The type assertion
  \<open>event.Object.(*v1.Pod)\<close> of an event that carries no pod leaves a nil pointer, whose
  \<open>Status.Phase\<close> panics.
\<close>

fun waitRunning :: "watchEvent list \<Rightarrow> failure + bool" where
  "waitRunning [] = Inr False"
| "waitRunning (PodEvent p # evs) = (if Phase p = PodRunning then Inr True else waitRunning evs)"
| "waitRunning (OtherEvent # evs) = Inl Panic"

definition createPrivilegedPod ::
  "'w client \<Rightarrow> cmdArgs \<Rightarrow> string \<Rightarrow> string \<Rightarrow> requestSpec \<Rightarrow> 'w \<Rightarrow> (failure + unit) \<times> 'w" where
  "createPrivilegedPod cl args namespace nodeName rs w =
     (let p = privilegedPodSpec args (privPodName rs) nodeName namespace
      in case createPod cl p w of
           (Inl f, w1) \<Rightarrow> (Inl f, w1)
         | (Inr u, w1) \<Rightarrow>
             (case Watch cl namespace (privPodName rs) w1 of
                (Inl e, w2) \<Rightarrow> (Inl (Err (''error starting watcher for privilege pod: '' @ e)), w2)
              | (Inr evs, w2) \<Rightarrow>
                  (case waitRunning evs of
                     Inl f \<Rightarrow> (Inl f, w2)
                   | Inr True \<Rightarrow> (Inr (), w2)
                   | Inr False \<Rightarrow>
                       (case Get cl namespace (privPodName rs) w2 of
                          ((None, e), w3) \<Rightarrow> (Inl Panic, w3)
                        | ((Some q, e), w3) \<Rightarrow>
                            (Inl (Err (''privileged pod '' @ Name q @ '' is not running after ''
                                       @ show_int (PrivPodTimeout args)
                                       @ '' seconds, it is currently in '' @ Phase q @ '' phase'')),
                             w3)))))"

section \<open>The state machine (Process, handleActiveStatus, handleDoneStatus)\<close>

definition updatePrivilegedCommandExecutorAnnotation ::
  "'w client \<Rightarrow> string \<Rightarrow> pod \<Rightarrow> string \<Rightarrow> 'w \<Rightarrow> (failure + unit) \<times> pod \<times> 'w" where
  "updatePrivilegedCommandExecutorAnnotation cl namespace newPodResource status w =
     applyAnnotationUpdateOnPod cl namespace [(AnnotationExecuteStatus, status)] newPodResource w"

definition deletePrivilegedCommandExecutorAnnotation ::
  "'w client \<Rightarrow> string \<Rightarrow> pod \<Rightarrow> 'w \<Rightarrow> (failure + unit) \<times> pod \<times> 'w" where
  "deletePrivilegedCommandExecutorAnnotation cl namespace newPodResource w =
     applyAnnotationDeletionOnPod cl namespace
       [AnnotationExecuteStatus, AnnotationExecuteContainer, AnnotationExecuteAction]
       newPodResource w"

text \<open>
  The loop of \<open>handleActiveStatus\<close> over \<open>Status.ContainerStatuses\<close>: every entry of the
  given name overwrites \<open>containerID\<close> with \<open>p.ContainerID[9:]\<close>, which panics when the
  identifier is shorter than 9 bytes.
\<close>

fun detectContainerID :: "containerStatus list \<Rightarrow> string \<Rightarrow> string \<Rightarrow> failure + string" where
  "detectContainerID [] name containerID = Inr containerID"
| "detectContainerID (p # ps) name containerID =
     (if StatusName p = name
      then (if length (ContainerID p) < 9 then Inl Panic
            else detectContainerID ps name (drop 9 (ContainerID p)))
      else detectContainerID ps name containerID)"

text \<open>The old pod is read for a log line only.\<close>

definition handleActiveStatus ::
  "'w client \<Rightarrow> cmdArgs \<Rightarrow> pod \<Rightarrow> pod \<Rightarrow> requestSpec \<Rightarrow> 'w \<Rightarrow> (failure + unit) \<times> pod \<times> 'w" where
  "handleActiveStatus cl args oldPodResource newPodResource rs w =
     (case updatePrivilegedCommandExecutorAnnotation cl (Namespace newPodResource) newPodResource
             StatusInProgress w of
        (Inl f, p, w1) \<Rightarrow>
          (Inl (wrapErr (''failed to update '' @ AnnotationExecuteStatus @ '' annotation to ''
                         @ StatusInProgress @ '': '') f), p, w1)
      | (Inr u, p, w1) \<Rightarrow>
          (case detectContainerID (ContainerStatuses p)
                  (annotation (Annotations p) AnnotationExecuteContainer) [] of
             Inl f \<Rightarrow> (Inl f, p, w1)
           | Inr containerID \<Rightarrow>
               if containerID = []
               then (Inl (Err (''no matching container ID for container ''
                               @ annotation (Annotations p) AnnotationExecuteContainer
                               @ '' on pod '' @ Name p @ '' under namespace '' @ Namespace p)), p, w1)
               else
                 (case getNodeName p of
                    Inl f \<Rightarrow> (Inl (wrapErr ''failed to detect target node: %s'' f), p, w1)
                  | Inr nodeName \<Rightarrow>
                      (case createPrivilegedPod cl args (ArgsNamespace args) nodeName rs w1 of
                         (Inl f, w2) \<Rightarrow> (Inl f, p, w2)
                       | (Inr u, w2) \<Rightarrow>
                           (let rce = \<lparr>rceNamespace = ArgsNamespace args, rceRequestSpec = rs,
                                       rceContainer = annotation (Annotations p) AnnotationExecuteContainer,
                                       rceContainerID = containerID,
                                       rcePrivilegeContainer = PrivilegeContainer\<rparr>;
                                action = annotation (Annotations p) AnnotationExecuteAction;
                                actionToExec = Fields action
                            in case executeNsenterCommand cl rce actionToExec w2 of
                                 (Inl f, w3) \<Rightarrow> (Inl (wrapErr ''failed to execute command: '' f), p, w3)
                               | (Inr output, w3) \<Rightarrow>
                                   (case updatePrivilegedCommandExecutorAnnotation cl (Namespace p) p
                                           StatusDone w3 of
                                      (Inl f, p', w4) \<Rightarrow>
                                        (Inl (wrapErr (''failed to update '' @ AnnotationExecuteStatus
                                                       @ '' annotation to '' @ StatusDone @ '': '') f),
                                         p', w4)
                                    | (Inr u, p', w4) \<Rightarrow> (Inr (), p', w4)))))))"

text \<open>The sleep of one second before the deletion changes nothing that the model holds.\<close>

definition handleDoneStatus ::
  "'w client \<Rightarrow> cmdArgs \<Rightarrow> pod \<Rightarrow> pod \<Rightarrow> requestSpec \<Rightarrow> 'w \<Rightarrow> (failure + unit) \<times> pod \<times> 'w" where
  "handleDoneStatus cl args oldPodResource newPodResource rs w =
     (case deletePod cl (ArgsNamespace args) rs w of
        (Inl f, w1) \<Rightarrow> (Inl f, newPodResource, w1)
      | (Inr u, w1) \<Rightarrow>
          (case deletePrivilegedCommandExecutorAnnotation cl (Namespace newPodResource)
                  newPodResource w1 of
             (Inl f, p, w2) \<Rightarrow>
               (Inl (wrapErr (''failed to delete annotations '' @ AnnotationExecuteStatus @ '', ''
                              @ AnnotationExecuteContainer @ '' and '' @ AnnotationExecuteAction
                              @ '': '') f), p, w2)
           | (Inr u, p, w2) \<Rightarrow> (Inr (), p, w2)))"

definition Process ::
  "'w client \<Rightarrow> cmdArgs \<Rightarrow> pod \<Rightarrow> pod \<Rightarrow> requestSpec \<Rightarrow> 'w \<Rightarrow> (failure + unit) \<times> pod \<times> 'w" where
  "Process cl args oldPodResource newPodResource rs w =
     (if annotation (Annotations newPodResource) AnnotationExecuteStatus = StatusActive
      then (case handleActiveStatus cl args oldPodResource newPodResource rs w of
              (Inl f, p, w') \<Rightarrow>
                (Inl (wrapErr (''unable to act upon annotation '' @ AnnotationExecuteStatus
                               @ '' change to '' @ StatusActive @ '': '') f), p, w')
            | (Inr u, p, w') \<Rightarrow> (Inr (), p, w'))
      else if annotation (Annotations newPodResource) AnnotationExecuteStatus = StatusDone
      then (case handleDoneStatus cl args oldPodResource newPodResource rs w of
              (Inl f, p, w') \<Rightarrow>
                (Inl (wrapErr (''unable to act upon annotation '' @ AnnotationExecuteStatus
                               @ '' change to '' @ StatusDone @ '': '') f), p, w')
            | (Inr u, p, w') \<Rightarrow> (Inr (), p, w'))
      else (Inr (), newPodResource, w))"

section \<open>The dispatcher (handleUpdate)\<close>

text \<open>
  The state of one run of \<open>handleUpdate\<close>: the request specs with which \<open>Process\<close> has
  been invoked so far (a log kept by the model, in order of invocation), whether a panic
  has unwound the callback, the new pod object and the world.
\<close>

record 'w dispatch =
  invoked :: "requestSpec list"
  panicked :: bool
  podObject :: pod
  world :: "'w"

text \<open>
  The body of the \<open>range\<close> loop for one annotation key. The request identifier is a fresh
  UUID per invocation, given by \<open>uuid\<close>. After an error of \<open>Process\<close> the privileged pod is
  deleted and the status is set to \<open>error\<close>, both with their own errors logged only.
  The second component tells whether the body created an entry of the map it ranges
  over: the write of the status \<open>error\<close> does when \<open>Process\<close> has removed the status key
  from the pod object (the done-handler removes the keys before it sends its patch).
\<close>

definition updateStep ::
  "'w client \<Rightarrow> cmdArgs \<Rightarrow> (nat \<Rightarrow> string) \<Rightarrow> pod \<Rightarrow> string \<Rightarrow> 'w dispatch
     \<Rightarrow> 'w dispatch \<times> bool" where
  "updateStep cl args uuid oldPodResource podAnnotationKey d =
     (if panicked d then (d, False)
      else if podAnnotationKey = AnnotationExecuteStatus
      then (let newPodResource = podObject d;
                name = ToLower (replaceUnderscore
                         (''priv_'' @ Name newPodResource @ ''_''
                          @ annotation (Annotations newPodResource) AnnotationExecuteContainer));
                currRequestSpec = \<lparr>privPodName = name, reqID = uuid (length (invoked d))\<rparr>;
                log = invoked d @ [currRequestSpec]
            in case Process cl args oldPodResource newPodResource currRequestSpec (world d) of
                 (Inr u, p, w1) \<Rightarrow>
                   (\<lparr>invoked = log, panicked = False, podObject = p, world = w1\<rparr>, False)
               | (Inl Panic, p, w1) \<Rightarrow>
                   (\<lparr>invoked = log, panicked = True, podObject = p, world = w1\<rparr>, False)
               | (Inl (Err e), p, w1) \<Rightarrow>
                   (case deletePod cl (ArgsNamespace args) currRequestSpec w1 of
                      (r, w2) \<Rightarrow>
                        (case updatePrivilegedCommandExecutorAnnotation cl (Namespace p) p
                                StatusError w2 of
                           (r', p', w3) \<Rightarrow>
                             (\<lparr>invoked = log, panicked = False, podObject = p', world = w3\<rparr>,
                              map_of (entries (Annotations p)) AnnotationExecuteStatus = None))))
      else (d, False))"

text \<open>
  The \<open>range\<close> loop over the annotation map, which its body mutates. The keys that the
  map holds when the loop starts are produced once each, in the order of the association
  list. An entry that is created while the loop runs may be produced later in the same
  loop or skipped, as the Go runtime chooses: \<open>produce\<close> is that choice. (An entry that is
  removed before it is reached is not produced; the body does nothing for any key but the
  status key, so the model leaves such keys in the work list.)
\<close>

function rangeAnnotations ::
  "'w client \<Rightarrow> cmdArgs \<Rightarrow> (nat \<Rightarrow> string) \<Rightarrow> bool \<Rightarrow> pod \<Rightarrow> string list \<Rightarrow> 'w dispatch
     \<Rightarrow> 'w dispatch" where
  "rangeAnnotations cl args uuid produce oldPodResource [] d = d"
| "rangeAnnotations cl args uuid produce oldPodResource (key # keys) d =
     (case updateStep cl args uuid oldPodResource key d of
        (d', created) \<Rightarrow>
          rangeAnnotations cl args uuid produce oldPodResource
            (if created \<and> produce then keys @ [AnnotationExecuteStatus] else keys) d')"
  by pat_completeness auto

termination
proof (relation "measure (\<lambda>(cl, args, uuid, produce, oldPodResource, keys, d).
         2 * length keys
         + (if annotation (Annotations (podObject d)) AnnotationExecuteStatus = StatusActive
               \<or> annotation (Annotations (podObject d)) AnnotationExecuteStatus = StatusDone
            then 1 else 0))")
  show "wf (measure (\<lambda>(cl, args, uuid, produce, oldPodResource, keys, d).
         2 * length keys
         + (if annotation (Annotations (podObject d)) AnnotationExecuteStatus = StatusActive
               \<or> annotation (Annotations (podObject d)) AnnotationExecuteStatus = StatusDone
            then 1 else 0)))"
    by simp
next
  fix cl :: "'w client" and args uuid and produce :: bool and oldPodResource key keys
    and d :: "'w dispatch" and d' created
  assume step: "(d', created) = updateStep cl args uuid oldPodResource key d"
  let ?st = "\<lambda>e. annotation (Annotations (podObject e)) AnnotationExecuteStatus"
  let ?rs = "\<lparr>privPodName = ToLower (replaceUnderscore
                         (''priv_'' @ Name (podObject d) @ ''_''
                          @ annotation (Annotations (podObject d)) AnnotationExecuteContainer)),
              reqID = uuid (length (invoked d))\<rparr>"
  have written: "\<And>ns p st w. annotation (Annotations (fst (snd
          (updatePrivilegedCommandExecutorAnnotation cl ns p st w)))) AnnotationExecuteStatus = st"
    by (simp add: updatePrivilegedCommandExecutorAnnotation_def applyAnnotationUpdateOnPod_def
        Let_def annotation_def update_conv' split: prod.splits)
  have "(?st d = StatusActive \<or> ?st d = StatusDone) \<and> ?st d' = StatusError" if created
  proof -
    from step that have us: "updateStep cl args uuid oldPodResource key d = (d', True)"
      by simp
    have np: "\<not> panicked d" and k: "key = AnnotationExecuteStatus"
      using us by (auto simp: updateStep_def split: if_splits)
    obtain r p w1 where P: "Process cl args oldPodResource (podObject d) ?rs (world d) = (r, p, w1)"
      by (cases "Process cl args oldPodResource (podObject d) ?rs (world d)") auto
    from us np k P obtain e where r: "r = Inl (Err e)"
      by (cases r; cases "projl r") (auto simp: updateStep_def Let_def)
    have a: "?st d = StatusActive \<or> ?st d = StatusDone"
    proof (rule ccontr)
      assume "\<not> ?thesis"
      then have "Process cl args oldPodResource (podObject d) ?rs (world d)
                   = (Inr (), podObject d, world d)"
        by (simp add: Process_def)
      with P r show False by simp
    qed
    obtain r2 w2 where D: "deletePod cl (ArgsNamespace args) ?rs w1 = (r2, w2)"
      by (cases "deletePod cl (ArgsNamespace args) ?rs w1") auto
    have "podObject d' = fst (snd (updatePrivilegedCommandExecutorAnnotation cl (Namespace p) p
                                     StatusError w2))"
      using us np k P r D by (auto simp: updateStep_def Let_def split: prod.splits)
    then have "?st d' = StatusError" by (simp add: written)
    with a show ?thesis by simp
  qed
  moreover have "StatusError \<noteq> StatusActive" "StatusError \<noteq> StatusDone"
    by (simp_all add: StatusError_def StatusActive_def StatusDone_def)
  ultimately show "((cl, args, uuid, produce, oldPodResource,
            if created \<and> produce then keys @ [AnnotationExecuteStatus] else keys, d'),
           (cl, args, uuid, produce, oldPodResource, key # keys, d))
          \<in> measure (\<lambda>(cl, args, uuid, produce, oldPodResource, keys, d).
         2 * length keys
         + (if annotation (Annotations (podObject d)) AnnotationExecuteStatus = StatusActive
               \<or> annotation (Annotations (podObject d)) AnnotationExecuteStatus = StatusDone
            then 1 else 0))"
    by auto
qed

definition handleUpdate ::
  "'w client \<Rightarrow> cmdArgs \<Rightarrow> (nat \<Rightarrow> string) \<Rightarrow> bool \<Rightarrow> pod \<Rightarrow> pod \<Rightarrow> 'w \<Rightarrow> 'w dispatch" where
  "handleUpdate cl args uuid produce oldPodResource newPodResource w =
     (let d = \<lparr>invoked = [], panicked = False, podObject = newPodResource, world = w\<rparr>
      in if Annotations newPodResource \<noteq> None
            \<and> annotation (Annotations newPodResource) AnnotationExecuteContainer \<noteq> []
            \<and> annotation (Annotations newPodResource) AnnotationExecuteAction \<noteq> []
            \<and> annotation (Annotations newPodResource) AnnotationExecuteStatus \<noteq> []
         then rangeAnnotations cl args uuid produce oldPodResource
                (map fst (entries (Annotations newPodResource))) d
         else d)"

section \<open>The in-memory clientset of the tests (fake.NewSimpleClientset)\<close>

text \<open>
  An object tracker: the pods of the cluster by namespace and name. Creation fails on a pod
  that exists, deletion on one that does not, with the error texts of the API. A patch of a
  registered pod sets and removes the annotations it names, as the API server applies a
  strategic merge patch (the tests never read a removed key back from the clientset), and
  a patch of an unregistered pod succeeds and changes nothing (the tests of the repository
  patch a pod that they never create). The watch and the remote command are not played by
  the tracker: the events \<open>evs\<close> and the outcome \<open>run\<close> of a command stand for them.
\<close>

type_synonym tracker = "string \<times> string \<Rightarrow> pod option"

fun applyPatch :: "patch \<Rightarrow> (string \<times> string) list \<Rightarrow> (string \<times> string) list" where
  "applyPatch [] al = al"
| "applyPatch ((k, Some v) # ops) al = applyPatch ops (AList.update k v al)"
| "applyPatch ((k, None) # ops) al = applyPatch ops (AList.delete k al)"

definition fakeClientset :: "watchEvent list \<Rightarrow> (string list \<Rightarrow> execResult) \<Rightarrow> tracker client" where
  "fakeClientset evs run =
     \<lparr>Create = (\<lambda>p w. case w (Namespace p, Name p) of
                        Some q \<Rightarrow> (Some (''pods '' @ CHR 0x22 # Name p @ CHR 0x22 # '' already exists''), w)
                      | None \<Rightarrow> (None, w((Namespace p, Name p) \<mapsto> p))),
      Get = (\<lambda>ns n w. case w (ns, n) of
                        Some q \<Rightarrow> ((Some q, None), w)
                      | None \<Rightarrow> ((None, Some (''pods '' @ CHR 0x22 # n @ CHR 0x22 # '' not found'')), w)),
      Delete = (\<lambda>ns n w. case w (ns, n) of
                        Some q \<Rightarrow> (None, w((ns, n) := None))
                      | None \<Rightarrow> (Some (''pods '' @ CHR 0x22 # n @ CHR 0x22 # '' not found''), w)),
      Patch = (\<lambda>ns n ops w. case w (ns, n) of
                        Some q \<Rightarrow>
                          (None, w((ns, n) \<mapsto>
                             q\<lparr>Annotations := Some (applyPatch ops (entries (Annotations q)))\<rparr>))
                      | None \<Rightarrow> (None, w)),
      Watch = (\<lambda>ns n w. (Inr evs, w)),
      Exec = (\<lambda>ns n c command w. (run command, w))\<rparr>"

section \<open>The fixtures of the tests (execute_test.go)\<close>

definition targetContainerStatus :: containerStatus where
  "targetContainerStatus = \<lparr>StatusName = ''target-container'', ContainerID = ''docker://containerid''\<rparr>"

definition targetPodSpecWithNode :: pod where
  "targetPodSpecWithNode =
     \<lparr>Name = ''test-pod'', Namespace = ''default'',
      Annotations = Some [(''init-annotation1'', ''init-value1''),
                          (''init-annotation2'', ''init-value2'')],
      NodeName = ''targetNode'', ServiceAccountName = [], HostPID = False, RestartPolicy = [],
      Containers = [\<lparr>ContainerName = ''target-container'', Image = ''image'',
                     ImagePullPolicy = ''Always'', Privileged = None, VolumeMounts = []\<rparr>],
      Volumes = [], InitContainerStatuses = [], ContainerStatuses = [targetContainerStatus],
      Phase = []\<rparr>"

text \<open>\<open>CmdArgs\<close> and the request as the tests set them; the request identifier is random there.\<close>

definition testArgs :: cmdArgs where
  "testArgs = \<lparr>PrivPodTimeout = 3, ArgsNamespace = ''default'', ArgsImage = ''image'',
               Serviceaccount = []\<rparr>"

definition currRequest :: requestSpec where
  "currRequest = \<lparr>privPodName = ''priv-test-pod-target-container'', reqID = ''0''\<rparr>"

text \<open>The three protocol annotations that the tests write, with the given status.\<close>

definition protocolAnnotations :: "string \<Rightarrow> (string \<times> string) list" where
  "protocolAnnotations status =
     [(AnnotationExecuteStatus, status), (AnnotationExecuteContainer, ''target-container''),
      (AnnotationExecuteAction, ''target-action'')]"

text \<open>The target pod once a test has written the three protocol annotations onto it.\<close>

definition annotatedPod :: "string \<Rightarrow> pod" where
  "annotatedPod status =
     targetPodSpecWithNode\<lparr>Annotations :=
       Some ([(''init-annotation1'', ''init-value1''), (''init-annotation2'', ''init-value2'')]
             @ protocolAnnotations status)\<rparr>"

text \<open>The pod of the tests of the annotation helpers (helper_test.go).\<close>

definition getPodSpec :: "string \<Rightarrow> pod" where
  "getPodSpec nodeName =
     \<lparr>Name = ''test-pod'', Namespace = ''default'',
      Annotations = Some [(''init-annotation1'', ''init-value1''),
                          (''init-annotation2'', ''init-value2'')],
      NodeName = nodeName, ServiceAccountName = [], HostPID = False, RestartPolicy = [],
      Containers = [], Volumes = [], InitContainerStatuses = [], ContainerStatuses = [],
      Phase = []\<rparr>"

section \<open>Facts about annotation maps\<close>

lemmas protocol_defs = AnnotationExecuteStatus_def AnnotationExecuteContainer_def
  AnnotationExecuteAction_def StatusActive_def StatusInProgress_def StatusDone_def StatusError_def

lemmas fixture_defs = targetPodSpecWithNode_def targetContainerStatus_def testArgs_def
  currRequest_def protocolAnnotations_def annotatedPod_def

lemma keys_differ:
  "AnnotationExecuteContainer \<noteq> AnnotationExecuteStatus"
  "AnnotationExecuteAction \<noteq> AnnotationExecuteStatus"
  "AnnotationExecuteContainer \<noteq> AnnotationExecuteAction"
  by (simp_all add: protocol_defs)

lemma annotation_delete:
  "annotation (map_option (AList.delete key) m) j = (if j = key then [] else annotation m j)"
  by (cases m) (simp_all add: annotation_def delete_conv')

lemma annotation_update:
  "annotation (Some (AList.update k v al)) j = (if j = k then v else annotation (Some al) j)"
  by (simp add: annotation_def update_conv')

lemma annotation_entries: "annotation (Some (entries m)) j = annotation m j"
  by (cases m) (simp_all add: annotation_def entries_def)

lemma annotation_absent:
  "map_of (entries m) k = None \<Longrightarrow> annotation m k = []"
  by (cases m) (simp_all add: annotation_def entries_def)

lemma annotation_present:
  "annotation m k \<noteq> [] \<Longrightarrow> k \<in> set (map fst (entries m))"
  by (cases m)
     (auto simp: annotation_def entries_def split: option.splits dest: map_of_SomeD
           intro: rev_image_eqI)

lemma map_of_fold_delete:
  "map_of (fold AList.delete pre al) j = (if j \<in> set pre then None else map_of al j)"
  by (induction pre arbitrary: al) (auto simp: delete_conv')

lemma map_of_fold_update:
  "distinct (map fst upd) \<Longrightarrow>
   map_of (fold (\<lambda>(key, value) al. AList.update key value al) upd al) = map_of al ++ map_of upd"
proof (induction upd arbitrary: al)
  case Nil
  then show ?case by simp
next
  case (Cons kv upd)
  obtain k v where kv: "kv = (k, v)" by (cases kv)
  from Cons.prems kv have d: "distinct (map fst upd)" and n: "k \<notin> dom (map_of upd)"
    by (simp_all add: dom_map_of_conv_image_fst)
  have "map_of (fold (\<lambda>(key, value) al. AList.update key value al) (kv # upd) al)
      = map_of (AList.update k v al) ++ map_of upd"
    using Cons.IH[OF d] kv by simp
  also have "\<dots> = (map_of al)(k \<mapsto> v) ++ map_of upd"
    by (simp add: update_conv')
  also have "\<dots> = map_of al ++ map_of (kv # upd)"
    using n kv by (simp add: map_add_upd_left)
  finally show ?case .
qed

lemma distinct_fold_update:
  "distinct (map fst al) \<Longrightarrow>
   distinct (map fst (fold (\<lambda>(key, value) al. AList.update key value al) upd al))"
  by (induction upd arbitrary: al) (auto simp: distinct_update)

lemma update_status_pod:
  "updatePrivilegedCommandExecutorAnnotation cl ns pod status w = (r, p, w') \<Longrightarrow>
   p = pod\<lparr>Annotations := Some (AList.update AnnotationExecuteStatus status (entries (Annotations pod)))\<rparr>"
  by (auto simp: updatePrivilegedCommandExecutorAnnotation_def applyAnnotationUpdateOnPod_def
      entries_def Let_def split: prod.splits option.splits)

lemma written_status:
  "annotation (Annotations (fst (snd (updatePrivilegedCommandExecutorAnnotation cl ns p st w))))
     AnnotationExecuteStatus = st"
  by (simp add: updatePrivilegedCommandExecutorAnnotation_def applyAnnotationUpdateOnPod_def
      Let_def annotation_def update_conv' split: prod.splits)

section \<open>Facts about the merge patch\<close>

lemma map_of_filter_distinct:
  "distinct (map fst xs) \<Longrightarrow>
   map_of (filter (\<lambda>(k, v). P k v) xs) j
     = (case map_of xs j of None \<Rightarrow> None | Some v \<Rightarrow> if P j v then Some v else None)"
proof (induction xs arbitrary: j)
  case Nil
  then show ?case by simp
next
  case (Cons kv xs)
  obtain k v where kv: "kv = (k, v)" by (cases kv)
  from Cons.prems kv have d: "distinct (map fst xs)" and n: "map_of xs k = None"
    by (simp_all add: map_of_eq_None_iff)
  have f: "map_of (filter (\<lambda>(k, v). P k v) xs) k = None"
    using Cons.IH[OF d, of k] n by simp
  show ?case
    using Cons.IH[OF d, of j] kv f by (cases "j = k") simp_all
qed

lemma applyPatch_append:
  "applyPatch (xs @ ys) al = applyPatch ys (applyPatch xs al)"
  by (induction xs al rule: applyPatch.induct) auto

lemma applyPatch_sets:
  "distinct (map fst S) \<Longrightarrow>
   map_of (applyPatch (map (\<lambda>(k, v). (k, Some v)) S) al) = map_of al ++ map_of S"
proof (induction S arbitrary: al)
  case Nil
  then show ?case by simp
next
  case (Cons kv S)
  obtain k v where kv: "kv = (k, v)" by (cases kv)
  from Cons.prems kv have d: "distinct (map fst S)" and n: "k \<notin> dom (map_of S)"
    by (simp_all add: dom_map_of_conv_image_fst)
  have "map_of (applyPatch (map (\<lambda>(k, v). (k, Some v)) (kv # S)) al)
      = map_of (AList.update k v al) ++ map_of S"
    using Cons.IH[OF d] kv by simp
  also have "\<dots> = map_of al ++ map_of (kv # S)"
    using n kv by (simp add: update_conv' map_add_upd_left)
  finally show ?case .
qed

lemma applyPatch_dels:
  "map_of (applyPatch (map (\<lambda>(k, v). (k, None)) D) al) j
     = (if j \<in> fst ` set D then None else map_of al j)"
proof (induction D arbitrary: al)
  case Nil
  then show ?case by simp
next
  case (Cons kv D)
  obtain k v where kv: "kv = (k, v)" by (cases kv)
  have "map_of (applyPatch (map (\<lambda>(k, v). (k, None)) (kv # D)) al) j
      = (if j \<in> fst ` set D then None else map_of (AList.delete k al) j)"
    using Cons.IH[of "AList.delete k al"] kv by simp
  then show ?case using kv by (auto simp: delete_conv')
qed

lemma patch_merges:
  assumes "distinct (map fst (entries (Annotations modified)))"
  shows "map_of (applyPatch (CreateTwoWayMergePatch original modified) al) j
           = (if map_of (entries (Annotations original)) j = map_of (entries (Annotations modified)) j
              then map_of al j else map_of (entries (Annotations modified)) j)"
proof -
  let ?a = "entries (Annotations original)" and ?b = "entries (Annotations modified)"
  let ?S = "filter (\<lambda>(k, v). map_of ?a k \<noteq> Some v) ?b"
  let ?D = "filter (\<lambda>(k, v). map_of ?b k = None) ?a"
  have dS: "distinct (map fst ?S)" using assms by (rule distinct_map_filter)
  have S: "map_of ?S j = (case map_of ?b j of None \<Rightarrow> None
                          | Some v \<Rightarrow> if map_of ?a j \<noteq> Some v then Some v else None)"
    using assms by (rule map_of_filter_distinct)
  have D: "j \<in> fst ` set ?D \<longleftrightarrow> map_of ?a j \<noteq> None \<and> map_of ?b j = None"
  proof
    assume "j \<in> fst ` set ?D"
    then obtain v where "(j, v) \<in> set ?a" and n: "map_of ?b j = None" by auto
    then have "j \<in> fst ` set ?a" by force
    with n show "map_of ?a j \<noteq> None \<and> map_of ?b j = None"
      by (simp add: map_of_eq_None_iff)
  next
    assume r: "map_of ?a j \<noteq> None \<and> map_of ?b j = None"
    then obtain v where "map_of ?a j = Some v" by auto
    then have "(j, v) \<in> set ?a" by (rule map_of_SomeD)
    with r have "(j, v) \<in> set ?D" by simp
    then show "j \<in> fst ` set ?D" by force
  qed
  define inD where "inD \<longleftrightarrow> j \<in> fst ` set ?D"
  define viaS where "viaS = map_of ?S j"
  have "map_of (applyPatch (CreateTwoWayMergePatch original modified) al) j
      = (if j \<in> fst ` set ?D then None else (map_of al ++ map_of ?S) j)"
    by (simp add: CreateTwoWayMergePatch_def Let_def applyPatch_append applyPatch_dels
        applyPatch_sets[OF dS])
  then have 1: "map_of (applyPatch (CreateTwoWayMergePatch original modified) al) j
      = (if inD then None else case viaS of None \<Rightarrow> map_of al j | Some v \<Rightarrow> Some v)"
    by (simp add: inD_def viaS_def map_add_def)
  have 2: "inD \<longleftrightarrow> map_of ?a j \<noteq> None \<and> map_of ?b j = None"
    unfolding inD_def by (rule D)
  have 3: "viaS = (case map_of ?b j of None \<Rightarrow> None
                   | Some v \<Rightarrow> if map_of ?a j \<noteq> Some v then Some v else None)"
    unfolding viaS_def by (rule S)
  show ?thesis
    unfolding 1 2 3 by (cases "map_of ?a j"; cases "map_of ?b j") auto
qed

text \<open>
  On the in-memory clientset, an upsert onto a registered pod changes, on the cluster,
  exactly the annotations whose value the upsert changed on the pod object; all others,
  also those that another writer has set meanwhile, keep the value the cluster holds.
\<close>

lemma upsert_on_cluster:
  assumes "distinct (map fst upd)" and "distinct (map fst (entries (Annotations pod)))"
      and "w (ns, Name pod) = Some q"
      and "applyAnnotationUpdateOnPod (fakeClientset evs run) ns upd pod w = (r, pod', w')"
  shows "r = Inr ()
       \<and> (\<exists>al''. w' = w((ns, Name pod) \<mapsto> q\<lparr>Annotations := Some al''\<rparr>)
             \<and> (\<forall>j. map_of al'' j
                      = (if map_of (entries (Annotations pod')) j = map_of (entries (Annotations pod)) j
                         then map_of (entries (Annotations q)) j
                         else map_of (entries (Annotations pod')) j)))"
proof -
  let ?al' = "fold (\<lambda>(key, value) al. AList.update key value al) upd (entries (Annotations pod))"
  let ?pod' = "pod\<lparr>Annotations := Some ?al'\<rparr>"
  let ?al'' = "applyPatch (CreateTwoWayMergePatch pod ?pod') (entries (Annotations q))"
  have d: "distinct (map fst (entries (Annotations ?pod')))"
    using assms(2) by (simp add: entries_def distinct_fold_update)
  have e: "(case Annotations pod of None \<Rightarrow> [] | Some al \<Rightarrow> al) = entries (Annotations pod)"
    by (simp add: entries_def)
  have res: "r = Inr () \<and> pod' = ?pod' \<and> w' = w((ns, Name pod) \<mapsto> q\<lparr>Annotations := Some ?al''\<rparr>)"
    using assms(3,4)
    by (auto simp: applyAnnotationUpdateOnPod_def applyPatchForAnnotation_def fakeClientset_def
        Let_def e)
  have m: "\<forall>j. map_of ?al'' j
                = (if map_of (entries (Annotations ?pod')) j = map_of (entries (Annotations pod)) j
                   then map_of (entries (Annotations q)) j
                   else map_of (entries (Annotations ?pod')) j)"
    using patch_merges[OF d, of pod "entries (Annotations q)"] by simp
  have r: "r = Inr ()" and p: "pod' = ?pod'"
    and w: "w' = w((ns, Name pod) \<mapsto> q\<lparr>Annotations := Some ?al''\<rparr>)"
    using res by simp_all
  have m': "\<forall>j. map_of ?al'' j
                = (if map_of (entries (Annotations pod')) j = map_of (entries (Annotations pod)) j
                   then map_of (entries (Annotations q)) j
                   else map_of (entries (Annotations pod')) j)"
    unfolding p by (rule m)
  show ?thesis
    apply (rule conjI)
     apply (rule r)
    apply (rule exI[of _ ?al''])
    apply (rule conjI)
     apply (rule w)
    apply (rule m')
    done
qed

text \<open>
  On the pod object the upsert extends the annotation map by the pairs written, whatever
  the client answers.
\<close>

lemma upsert_on_pod_object:
  assumes "distinct (map fst upd)"
      and "applyAnnotationUpdateOnPod cl ns upd pod w = (r, pod', w')"
  shows "\<exists>al'. pod' = pod\<lparr>Annotations := Some al'\<rparr>
           \<and> map_of al' = map_of (entries (Annotations pod)) ++ map_of upd
           \<and> (distinct (map fst (entries (Annotations pod))) \<longrightarrow> distinct (map fst al'))"
proof -
  let ?al' = "fold (\<lambda>(key, value) al. AList.update key value al) upd (entries (Annotations pod))"
  have 1: "pod' = pod\<lparr>Annotations := Some ?al'\<rparr>"
    using assms(2)
    by (auto simp: applyAnnotationUpdateOnPod_def entries_def Let_def split: prod.splits)
  have 2: "map_of ?al' = map_of (entries (Annotations pod)) ++ map_of upd"
    by (rule map_of_fold_update[OF assms(1)])
  have 3: "distinct (map fst (entries (Annotations pod))) \<longrightarrow> distinct (map fst ?al')"
    by (simp add: distinct_fold_update)
  show ?thesis
    apply (rule exI[of _ ?al'])
    apply (intro conjI)
      apply (rule 1)
     apply (rule 2)
    apply (rule 3)
    done
qed

section \<open>Facts about the deletion loop\<close>

lemma deleteKeys_missing:
  "k \<in> set ks \<Longrightarrow> annotation (Annotations p) k = [] \<Longrightarrow>
   \<exists>pre k' post. ks = pre @ k' # post
      \<and> deleteKeys ks p = (Inl (Err (''annotation '' @ k' @ '' to be deleted does not exist'')),
                           p\<lparr>Annotations := map_option (\<lambda>al. fold AList.delete pre al) (Annotations p)\<rparr>)"
proof (induction ks arbitrary: p)
  case Nil
  then show ?case by simp
next
  case (Cons key keys)
  show ?case
  proof (cases "annotation (Annotations p) key = []")
    case True
    have "key # keys = [] @ key # keys
        \<and> deleteKeys (key # keys) p = (Inl (Err (''annotation '' @ key @ '' to be deleted does not exist'')),
              p\<lparr>Annotations := map_option (\<lambda>al. fold AList.delete [] al) (Annotations p)\<rparr>)"
      using True by (simp add: option.map_ident)
    then show ?thesis by blast
  next
    case False
    let ?p = "p\<lparr>Annotations := map_option (AList.delete key) (Annotations p)\<rparr>"
    from False Cons.prems have kin: "k \<in> set keys" by auto
    have "annotation (Annotations ?p) k = []"
      using Cons.prems(2) by (simp add: annotation_delete)
    from Cons.IH[OF kin this] obtain pre k' post where
      1: "keys = pre @ k' # post" and
      2: "deleteKeys keys ?p = (Inl (Err (''annotation '' @ k' @ '' to be deleted does not exist'')),
            ?p\<lparr>Annotations := map_option (\<lambda>al. fold AList.delete pre al) (Annotations ?p)\<rparr>)"
      by blast
    have "key # keys = (key # pre) @ k' # post
        \<and> deleteKeys (key # keys) p = (Inl (Err (''annotation '' @ k' @ '' to be deleted does not exist'')),
              p\<lparr>Annotations := map_option (\<lambda>al. fold AList.delete (key # pre) al) (Annotations p)\<rparr>)"
      using False 1 2 by (simp add: option.map_comp comp_def)
    then show ?thesis by blast
  qed
qed

lemma deleteKeys_first_missing:
  "k \<in> set ks \<Longrightarrow> annotation (Annotations p) k = [] \<Longrightarrow>
   \<exists>pre k' post. ks = pre @ k' # post
      \<and> distinct pre
      \<and> (\<forall>j \<in> set pre. annotation (Annotations p) j \<noteq> [])
      \<and> (annotation (Annotations p) k' = [] \<or> k' \<in> set pre)
      \<and> deleteKeys ks p = (Inl (Err (''annotation '' @ k' @ '' to be deleted does not exist'')),
                           p\<lparr>Annotations := map_option (\<lambda>al. fold AList.delete pre al) (Annotations p)\<rparr>)"
proof (induction ks arbitrary: p)
  case Nil
  then show ?case by simp
next
  case (Cons key keys)
  show ?case
  proof (cases "annotation (Annotations p) key = []")
    case True
    have "key # keys = [] @ key # keys
        \<and> distinct ([] :: string list)
        \<and> (\<forall>j \<in> set []. annotation (Annotations p) j \<noteq> [])
        \<and> (annotation (Annotations p) key = [] \<or> key \<in> set [])
        \<and> deleteKeys (key # keys) p = (Inl (Err (''annotation '' @ key @ '' to be deleted does not exist'')),
              p\<lparr>Annotations := map_option (\<lambda>al. fold AList.delete [] al) (Annotations p)\<rparr>)"
      using True by (simp add: option.map_ident)
    then show ?thesis by (intro exI)
  next
    case False
    let ?p = "p\<lparr>Annotations := map_option (AList.delete key) (Annotations p)\<rparr>"
    from False Cons.prems have kin: "k \<in> set keys" by auto
    have "annotation (Annotations ?p) k = []"
      using Cons.prems(2) by (simp add: annotation_delete)
    from Cons.IH[OF kin this] obtain pre k' post where
      1: "keys = pre @ k' # post" and
      d: "distinct pre" and
      n: "\<forall>j \<in> set pre. annotation (Annotations ?p) j \<noteq> []" and
      e: "annotation (Annotations ?p) k' = [] \<or> k' \<in> set pre" and
      2: "deleteKeys keys ?p = (Inl (Err (''annotation '' @ k' @ '' to be deleted does not exist'')),
            ?p\<lparr>Annotations := map_option (\<lambda>al. fold AList.delete pre al) (Annotations ?p)\<rparr>)"
      by (elim exE conjE)
    have n1: "key \<notin> set pre"
    proof
      assume "key \<in> set pre"
      with n have "annotation (Annotations ?p) key \<noteq> []" by (rule bspec)
      then show False by (simp add: annotation_delete)
    qed
    have n2: "\<forall>j \<in> set (key # pre). annotation (Annotations p) j \<noteq> []"
    proof
      fix j assume "j \<in> set (key # pre)"
      then consider "j = key" | "j \<in> set pre" by auto
      then show "annotation (Annotations p) j \<noteq> []"
      proof cases
        case 1 then show ?thesis using False by simp
      next
        case 2
        with n have "annotation (Annotations ?p) j \<noteq> []" by (rule bspec)
        then show ?thesis by (simp add: annotation_delete split: if_splits)
      qed
    qed
    have e2: "annotation (Annotations p) k' = [] \<or> k' \<in> set (key # pre)"
      using e by (auto simp: annotation_delete split: if_splits)
    have 3: "deleteKeys (key # keys) p
          = (Inl (Err (''annotation '' @ k' @ '' to be deleted does not exist'')),
              p\<lparr>Annotations := map_option (\<lambda>al. fold AList.delete (key # pre) al) (Annotations p)\<rparr>)"
      using False 2 by (simp add: option.map_comp comp_def)
    have "key # keys = (key # pre) @ k' # post
        \<and> distinct (key # pre)
        \<and> (\<forall>j \<in> set (key # pre). annotation (Annotations p) j \<noteq> [])
        \<and> (annotation (Annotations p) k' = [] \<or> k' \<in> set (key # pre))
        \<and> deleteKeys (key # keys) p
          = (Inl (Err (''annotation '' @ k' @ '' to be deleted does not exist'')),
              p\<lparr>Annotations := map_option (\<lambda>al. fold AList.delete (key # pre) al) (Annotations p)\<rparr>)"
      using 1 d n1 n2 e2 3 by simp
    then show ?thesis by (intro exI)
  qed
qed

lemma deleteKeys_fails_apply:
  "deleteKeys ks p = (Inl f, q) \<Longrightarrow> applyAnnotationDeletionOnPod cl ns ks p w = (Inl f, q, w)"
  by (simp add: applyAnnotationDeletionOnPod_def)

lemma deleteKeys_same_reads:
  "(\<And>j. annotation (Annotations p) j = annotation (Annotations q) j) \<Longrightarrow>
   fst (deleteKeys ks p) = fst (deleteKeys ks q)"
proof (induction ks arbitrary: p q)
  case Nil
  then show ?case by simp
next
  case (Cons key keys)
  have "fst (deleteKeys keys (p\<lparr>Annotations := map_option (AList.delete key) (Annotations p)\<rparr>))
      = fst (deleteKeys keys (q\<lparr>Annotations := map_option (AList.delete key) (Annotations q)\<rparr>))"
    by (rule Cons.IH) (simp add: annotation_delete Cons.prems)
  then show ?case by (simp add: Cons.prems)
qed

section \<open>Facts about the active handler\<close>

lemma waitRunning_never:
  "\<forall>e \<in> set evs. \<exists>p. e = PodEvent p \<and> Phase p \<noteq> PodRunning \<Longrightarrow> waitRunning evs = Inr False"
  by (induction evs rule: waitRunning.induct) auto

lemma detectContainerID_no_match:
  "\<forall>s \<in> set sts. StatusName s \<noteq> name \<Longrightarrow> detectContainerID sts name containerID = Inr containerID"
  by (induction sts) auto

lemma detectContainerID_short:
  "s \<in> set sts \<Longrightarrow> StatusName s = name \<Longrightarrow> length (ContainerID s) < 9 \<Longrightarrow>
   detectContainerID sts name containerID = Inl Panic"
  by (induction sts arbitrary: containerID) auto

text \<open>
  Whenever a regular status entry of the requested name carries an identifier shorter than
  the nine bytes of \<open>docker://\<close>, the active handler panics once the status is written.
\<close>

lemma short_container_id_panics:
  assumes "updatePrivilegedCommandExecutorAnnotation cl (Namespace pod) pod StatusInProgress w = (Inr (), p, w1)"
      and "s \<in> set (ContainerStatuses pod)"
      and "StatusName s = annotation (Annotations pod) AnnotationExecuteContainer"
      and "length (ContainerID s) < 9"
  shows "handleActiveStatus cl args oldPodResource pod rs w = (Inl Panic, p, w1)"
proof -
  have p: "p = pod\<lparr>Annotations := Some (AList.update AnnotationExecuteStatus StatusInProgress
                                          (entries (Annotations pod)))\<rparr>"
    using assms(1) by (rule update_status_pod)
  have c: "annotation (Annotations p) AnnotationExecuteContainer
             = annotation (Annotations pod) AnnotationExecuteContainer"
    by (simp add: p annotation_update annotation_entries keys_differ)
  have "s \<in> set (ContainerStatuses p)" using assms(2) by (simp add: p)
  moreover from assms(3) c
  have "StatusName s = annotation (Annotations p) AnnotationExecuteContainer" by simp
  ultimately have d: "detectContainerID (ContainerStatuses p)
             (annotation (Annotations p) AnnotationExecuteContainer) [] = Inl Panic"
    using assms(4) by (rule detectContainerID_short)
  show ?thesis
    by (simp add: handleActiveStatus_def assms(1) d)
qed

section \<open>Facts about the dispatcher\<close>

text \<open>
  A key other than the status key leaves the state alone; a
  visit of the status key invokes \<open>Process\<close> once; and when the visit has created the
  status entry anew, the entry holds \<open>error\<close>, so that a second visit invokes \<open>Process\<close>
  to no effect and creates nothing.
\<close>

lemma updateStep_other:
  "key \<noteq> AnnotationExecuteStatus \<Longrightarrow> updateStep cl args uuid old key d = (d, False)"
  by (simp add: updateStep_def)

lemma rangeAnnotations_other:
  "AnnotationExecuteStatus \<notin> set keys \<Longrightarrow>
   rangeAnnotations cl args uuid produce old (keys @ rest) d
     = rangeAnnotations cl args uuid produce old rest d"
  by (induction keys) (auto simp: updateStep_other)

lemma updateStep_invoked:
  "\<not> panicked d \<Longrightarrow>
   invoked (fst (updateStep cl args uuid old AnnotationExecuteStatus d))
     = invoked d @ [\<lparr>privPodName = ToLower (replaceUnderscore (''priv_'' @ Name (podObject d) @ ''_''
                          @ annotation (Annotations (podObject d)) AnnotationExecuteContainer)),
                     reqID = uuid (length (invoked d))\<rparr>]"
  by (simp add: updateStep_def Let_def split: prod.splits sum.splits failure.splits)

lemma Process_other_status:
  "annotation (Annotations p) AnnotationExecuteStatus \<noteq> StatusActive \<Longrightarrow>
   annotation (Annotations p) AnnotationExecuteStatus \<noteq> StatusDone \<Longrightarrow>
   Process cl args old p rs w = (Inr (), p, w)"
  by (simp add: Process_def)

lemma updateStep_created:
  assumes "updateStep cl args uuid old AnnotationExecuteStatus d = (d', True)"
  shows "\<not> panicked d'
       \<and> annotation (Annotations (podObject d')) AnnotationExecuteStatus = StatusError"
proof -
  let ?rs = "\<lparr>privPodName = ToLower (replaceUnderscore
                         (''priv_'' @ Name (podObject d) @ ''_''
                          @ annotation (Annotations (podObject d)) AnnotationExecuteContainer)),
              reqID = uuid (length (invoked d))\<rparr>"
  have np: "\<not> panicked d"
    using assms by (auto simp: updateStep_def split: if_splits)
  obtain r p w1 where P: "Process cl args old (podObject d) ?rs (world d) = (r, p, w1)"
    by (cases "Process cl args old (podObject d) ?rs (world d)") auto
  from assms np P obtain e where r: "r = Inl (Err e)"
    by (cases r; cases "projl r") (auto simp: updateStep_def Let_def)
  obtain r2 w2 where D: "deletePod cl (ArgsNamespace args) ?rs w1 = (r2, w2)"
    by (cases "deletePod cl (ArgsNamespace args) ?rs w1") auto
  have "podObject d' = fst (snd (updatePrivilegedCommandExecutorAnnotation cl (Namespace p) p
                                     StatusError w2)) \<and> \<not> panicked d'"
    using assms np P r D by (auto simp: updateStep_def Let_def split: prod.splits)
  then show ?thesis by (simp add: written_status)
qed

lemma updateStep_after_error:
  assumes "\<not> panicked d"
      and "annotation (Annotations (podObject d)) AnnotationExecuteStatus = StatusError"
  shows "updateStep cl args uuid old AnnotationExecuteStatus d
           = (d\<lparr>invoked := invoked d @ [\<lparr>privPodName = ToLower (replaceUnderscore
                    (''priv_'' @ Name (podObject d) @ ''_''
                     @ annotation (Annotations (podObject d)) AnnotationExecuteContainer)),
                   reqID = uuid (length (invoked d))\<rparr>]\<rparr>, False)"
proof -
  have "StatusError \<noteq> StatusActive" "StatusError \<noteq> StatusDone"
    by (simp_all add: StatusError_def StatusActive_def StatusDone_def)
  with assms show ?thesis
    by (simp add: updateStep_def Let_def Process_other_status)
qed

lemma status_key_once:
  assumes "distinct keys" and "k \<in> set keys"
  shows "\<exists>pre post. keys = pre @ k # post \<and> k \<notin> set pre \<and> k \<notin> set post"
proof -
  from assms(2) obtain pre post where s: "keys = pre @ k # post"
    by (auto simp: in_set_conv_decomp)
  with assms(1) have "k \<notin> set pre \<and> k \<notin> set post" by auto
  with s show ?thesis by blast
qed

lemma rangeAnnotations_status:
  assumes "AnnotationExecuteStatus \<notin> set pre" and "AnnotationExecuteStatus \<notin> set post"
      and "updateStep cl args uuid old AnnotationExecuteStatus d = (d1, created)"
  shows "rangeAnnotations cl args uuid produce old (pre @ AnnotationExecuteStatus # post) d
           = (if created \<and> produce then fst (updateStep cl args uuid old AnnotationExecuteStatus d1)
              else d1)"
proof -
  have 1: "rangeAnnotations cl args uuid produce old (pre @ AnnotationExecuteStatus # post) d
        = rangeAnnotations cl args uuid produce old
            (if created \<and> produce then post @ [AnnotationExecuteStatus] else post) d1"
    by (simp add: rangeAnnotations_other[OF assms(1)] assms(3))
  show ?thesis
  proof (cases "created \<and> produce")
    case False
    have p: "rangeAnnotations cl args uuid produce old post d1 = d1"
      using rangeAnnotations_other[OF assms(2), of cl args uuid produce old "[]" d1] by simp
    have "rangeAnnotations cl args uuid produce old (pre @ AnnotationExecuteStatus # post) d
        = rangeAnnotations cl args uuid produce old post d1"
      using 1 by (simp only: if_not_P[OF False])
    with p show ?thesis by (simp only: if_not_P[OF False])
  next
    case True
    with assms(3) have c: "updateStep cl args uuid old AnnotationExecuteStatus d = (d1, True)"
      by simp
    from updateStep_created[OF c]
    have np: "\<not> panicked d1"
      and e: "annotation (Annotations (podObject d1)) AnnotationExecuteStatus = StatusError"
      by simp_all
    have "rangeAnnotations cl args uuid produce old (pre @ AnnotationExecuteStatus # post) d
        = rangeAnnotations cl args uuid produce old (post @ [AnnotationExecuteStatus]) d1"
      using 1 True by simp
    also have "\<dots> = rangeAnnotations cl args uuid produce old [AnnotationExecuteStatus] d1"
      by (rule rangeAnnotations_other[OF assms(2)])
    also have "\<dots> = fst (updateStep cl args uuid old AnnotationExecuteStatus d1)"
      by (simp add: updateStep_after_error[OF np e])
    finally show ?thesis using True by simp
  qed
qed

text \<open>
  What holds of the dispatcher on every update. Without the three non-empty protocol
  annotations, \<open>Process\<close> is not invoked and nothing changes. With them, \<open>Process\<close> is
  invoked once, and a second time exactly when the visit of the status key has created the
  status entry anew and the loop produces entries created while it runs.
\<close>

lemma handleUpdate_invocations:
  assumes "distinct (map fst (entries (Annotations newPodResource)))"
  shows "(Annotations newPodResource \<noteq> None
            \<and> annotation (Annotations newPodResource) AnnotationExecuteContainer \<noteq> []
            \<and> annotation (Annotations newPodResource) AnnotationExecuteAction \<noteq> []
            \<and> annotation (Annotations newPodResource) AnnotationExecuteStatus \<noteq> []
          \<longrightarrow> length (invoked (handleUpdate cl args uuid produce oldPodResource newPodResource w))
                = (if snd (updateStep cl args uuid oldPodResource AnnotationExecuteStatus
                             \<lparr>invoked = [], panicked = False, podObject = newPodResource, world = w\<rparr>)
                      \<and> produce then 2 else 1))
       \<and> (\<not> (Annotations newPodResource \<noteq> None
            \<and> annotation (Annotations newPodResource) AnnotationExecuteContainer \<noteq> []
            \<and> annotation (Annotations newPodResource) AnnotationExecuteAction \<noteq> []
            \<and> annotation (Annotations newPodResource) AnnotationExecuteStatus \<noteq> [])
          \<longrightarrow> handleUpdate cl args uuid produce oldPodResource newPodResource w
                = \<lparr>invoked = [], panicked = False, podObject = newPodResource, world = w\<rparr>)"
proof (intro conjI impI)
  let ?d = "\<lparr>invoked = [], panicked = False, podObject = newPodResource, world = w\<rparr>"
  assume q: "Annotations newPodResource \<noteq> None
            \<and> annotation (Annotations newPodResource) AnnotationExecuteContainer \<noteq> []
            \<and> annotation (Annotations newPodResource) AnnotationExecuteAction \<noteq> []
            \<and> annotation (Annotations newPodResource) AnnotationExecuteStatus \<noteq> []"
  then have "AnnotationExecuteStatus \<in> set (map fst (entries (Annotations newPodResource)))"
    by (intro annotation_present) simp
  from status_key_once[OF assms this] obtain pre post where
    s: "map fst (entries (Annotations newPodResource)) = pre @ AnnotationExecuteStatus # post"
    and pre: "AnnotationExecuteStatus \<notin> set pre" and post: "AnnotationExecuteStatus \<notin> set post"
    by blast
  obtain d1 created where
    u: "updateStep cl args uuid oldPodResource AnnotationExecuteStatus ?d = (d1, created)"
    by (cases "updateStep cl args uuid oldPodResource AnnotationExecuteStatus ?d") auto
  have i1: "invoked d1 = [\<lparr>privPodName = ToLower (replaceUnderscore (''priv_'' @ Name newPodResource @ ''_''
                          @ annotation (Annotations newPodResource) AnnotationExecuteContainer)),
                     reqID = uuid 0\<rparr>]"
    using updateStep_invoked[of ?d cl args uuid oldPodResource] u by simp
  have h: "handleUpdate cl args uuid produce oldPodResource newPodResource w
          = (if created \<and> produce
             then fst (updateStep cl args uuid oldPodResource AnnotationExecuteStatus d1)
             else d1)"
    using q s rangeAnnotations_status[OF pre post u, of produce] by (simp add: handleUpdate_def)
  show "length (invoked (handleUpdate cl args uuid produce oldPodResource newPodResource w))
                = (if snd (updateStep cl args uuid oldPodResource AnnotationExecuteStatus ?d)
                      \<and> produce then 2 else 1)"
  proof (cases "created \<and> produce")
    case False
    then show ?thesis using h u i1 by auto
  next
    case True
    with u have c: "updateStep cl args uuid oldPodResource AnnotationExecuteStatus ?d = (d1, True)"
      by simp
    from updateStep_created[OF c] have "\<not> panicked d1" by simp
    from updateStep_invoked[OF this, of cl args uuid oldPodResource] i1 True h u
    show ?thesis by simp
  qed
next
  assume "\<not> (Annotations newPodResource \<noteq> None
            \<and> annotation (Annotations newPodResource) AnnotationExecuteContainer \<noteq> []
            \<and> annotation (Annotations newPodResource) AnnotationExecuteAction \<noteq> []
            \<and> annotation (Annotations newPodResource) AnnotationExecuteStatus \<noteq> [])"
  then show "handleUpdate cl args uuid produce oldPodResource newPodResource w
                = \<lparr>invoked = [], panicked = False, podObject = newPodResource, world = w\<rparr>"
    unfolding handleUpdate_def Let_def by (rule if_not_P)
qed

section \<open>The tests of the repository, replayed on the model\<close>

text \<open>
  Each test of the repository that runs against the in-memory clientset, as an evaluation
  of the model: the model returns what the test expects.
\<close>

lemma TestGetNodeName:
  "map getNodeName [getPodSpec ''node1'', getPodSpec ''node2''] = [Inr ''node1'', Inr ''node2'']"
  by (simp add: getNodeName_def getPodSpec_def)

lemma TestApplyAnnotationUpdateOnPod:
  "applyAnnotationUpdateOnPod (fakeClientset [] (\<lambda>c. ExecutorError [])) ''default''
     [(AnnotationExecuteContainer, ''targetContainer''), (AnnotationExecuteStatus, ''active'')]
     (getPodSpec ''targetNode'') [(''default'', ''test-pod'') \<mapsto> getPodSpec ''targetNode'']
   = (Inr (),
      (getPodSpec ''targetNode'')\<lparr>Annotations := Some
         [(''init-annotation1'', ''init-value1''), (''init-annotation2'', ''init-value2''),
          (AnnotationExecuteContainer, ''targetContainer''), (AnnotationExecuteStatus, ''active'')]\<rparr>,
      [(''default'', ''test-pod'') \<mapsto>
         (getPodSpec ''targetNode'')\<lparr>Annotations := Some
           [(''init-annotation1'', ''init-value1''), (''init-annotation2'', ''init-value2''),
            (AnnotationExecuteContainer, ''targetContainer''), (AnnotationExecuteStatus, ''active'')]\<rparr>])"
  by (simp add: applyAnnotationUpdateOnPod_def applyPatchForAnnotation_def fakeClientset_def
      CreateTwoWayMergePatch_def entries_def getPodSpec_def protocol_defs Let_def)

lemma TestApplyAnnotationUpdateOnPod_again:
  "applyAnnotationUpdateOnPod (fakeClientset [] (\<lambda>c. ExecutorError [])) ''default''
     [(AnnotationExecuteStatus, ''in-progress'')]
     ((getPodSpec ''targetNode'')\<lparr>Annotations := Some
         [(''init-annotation1'', ''init-value1''), (''init-annotation2'', ''init-value2''),
          (AnnotationExecuteContainer, ''targetContainer''), (AnnotationExecuteStatus, ''active'')]\<rparr>)
     [(''default'', ''test-pod'') \<mapsto>
         (getPodSpec ''targetNode'')\<lparr>Annotations := Some
           [(''init-annotation1'', ''init-value1''), (''init-annotation2'', ''init-value2''),
            (AnnotationExecuteContainer, ''targetContainer''), (AnnotationExecuteStatus, ''active'')]\<rparr>]
   = (Inr (),
      (getPodSpec ''targetNode'')\<lparr>Annotations := Some
         [(''init-annotation1'', ''init-value1''), (''init-annotation2'', ''init-value2''),
          (AnnotationExecuteContainer, ''targetContainer''), (AnnotationExecuteStatus, ''in-progress'')]\<rparr>,
      [(''default'', ''test-pod'') \<mapsto>
         (getPodSpec ''targetNode'')\<lparr>Annotations := Some
           [(''init-annotation1'', ''init-value1''), (''init-annotation2'', ''init-value2''),
            (AnnotationExecuteContainer, ''targetContainer''), (AnnotationExecuteStatus, ''in-progress'')]\<rparr>])"
  by (simp add: applyAnnotationUpdateOnPod_def applyPatchForAnnotation_def fakeClientset_def
      CreateTwoWayMergePatch_def entries_def getPodSpec_def protocol_defs Let_def)

lemma TestApplyAnnotationDeletionOnPod:
  "fst (applyAnnotationDeletionOnPod (fakeClientset [] (\<lambda>c. ExecutorError [])) ''default''
          [''init-annotation1''] (getPodSpec ''targetNode'')
          [(''default'', ''test-pod'') \<mapsto> getPodSpec ''targetNode'']) = Inr ()
   \<and> fst (snd (applyAnnotationDeletionOnPod (fakeClientset [] (\<lambda>c. ExecutorError [])) ''default''
          [''init-annotation1''] (getPodSpec ''targetNode'')
          [(''default'', ''test-pod'') \<mapsto> getPodSpec ''targetNode'']))
       = (getPodSpec ''targetNode'')\<lparr>Annotations := Some [(''init-annotation2'', ''init-value2'')]\<rparr>"
  by (simp add: applyAnnotationDeletionOnPod_def applyPatchForAnnotation_def fakeClientset_def
      CreateTwoWayMergePatch_def annotation_def entries_def getPodSpec_def Let_def)

lemma TestCreatePod:
  "createPod (fakeClientset [] (\<lambda>c. ExecutorError []))
     (privilegedPodSpec testArgs (privPodName currRequest) ''targetNode'' ''default'') Map.empty
   = (Inr (), [(''default'', ''priv-test-pod-target-container'') \<mapsto>
                 privilegedPodSpec testArgs (privPodName currRequest) ''targetNode'' ''default''])
   \<and> Name (privilegedPodSpec testArgs (privPodName currRequest) ''targetNode'' ''default'')
       = privPodName currRequest
   \<and> NodeName (privilegedPodSpec testArgs (privPodName currRequest) ''targetNode'' ''default'')
       = ''targetNode''
   \<and> (\<exists>c \<in> set (Containers (privilegedPodSpec testArgs (privPodName currRequest) ''targetNode''
                                ''default'')). Privileged c = Some True)"
  by (simp add: createPod_def fakeClientset_def privilegedPodSpec_def currRequest_def)

lemma TestDeletePod:
  "deletePod (fakeClientset [] (\<lambda>c. ExecutorError [])) ''default'' currRequest
     [(''default'', privPodName currRequest) \<mapsto> getPodSpec []\<lparr>Name := privPodName currRequest\<rparr>]
   = (Inr (), Map.empty)"
  by (simp add: deletePod_def fakeClientset_def currRequest_def)

lemma TestHandleActiveStatus:
  "handleActiveStatus (fakeClientset [] (\<lambda>c. ExecutorError [])) testArgs targetPodSpecWithNode
     (targetPodSpecWithNode\<lparr>Annotations := Some
        [(''init-annotation1'', ''init-value1''), (''init-annotation2'', ''init-value2''),
         (AnnotationExecuteStatus, StatusActive), (AnnotationExecuteContainer, ''target-container'')]\<rparr>)
     currRequest Map.empty
   = (Inl (Err ''privileged pod priv-test-pod-target-container is not running after 3 seconds, it is currently in  phase''),
      targetPodSpecWithNode\<lparr>Annotations := Some
        [(''init-annotation1'', ''init-value1''), (''init-annotation2'', ''init-value2''),
         (AnnotationExecuteStatus, StatusInProgress), (AnnotationExecuteContainer, ''target-container'')]\<rparr>,
      [(''default'', ''priv-test-pod-target-container'') \<mapsto>
         privilegedPodSpec testArgs ''priv-test-pod-target-container'' ''targetNode'' ''default''])"
  by (simp add: handleActiveStatus_def updatePrivilegedCommandExecutorAnnotation_def
      applyAnnotationUpdateOnPod_def applyPatchForAnnotation_def fakeClientset_def
      annotation_def getNodeName_def createPrivilegedPod_def createPod_def privilegedPodSpec_def
      show_int_def digits_of.simps fixture_defs protocol_defs)

lemma TestHandleDoneStatus:
  "handleDoneStatus (fakeClientset [] (\<lambda>c. ExecutorError [])) testArgs targetPodSpecWithNode
     (annotatedPod StatusDone) currRequest
     [(''default'', ''priv-test-pod-target-container'') \<mapsto>
        getPodSpec ''targetNode''\<lparr>Name := ''priv-test-pod-target-container''\<rparr>]
   = (Inr (), targetPodSpecWithNode, Map.empty)"
  by (simp add: handleDoneStatus_def deletePod_def deletePrivilegedCommandExecutorAnnotation_def
      applyAnnotationDeletionOnPod_def applyPatchForAnnotation_def fakeClientset_def
      annotation_def fixture_defs protocol_defs AList.delete_eq)

section \<open>The claims\<close>

text \<open>
  C1. The end-to-end scenario of \<open>TestProcess\<close>, on the in-memory clientset: the target pod
  \<open>test-pod\<close> in namespace \<open>default\<close> on node \<open>targetNode\<close>, whose container
  \<open>target-container\<close> has the runtime identifier \<open>docker://containerid\<close>, is annotated
  with status \<open>active\<close>, container \<open>target-container\<close> and action \<open>target-action\<close>; the
  timeout is 3 seconds and no event of the watch reports the privileged pod Running.
  Then \<open>Process\<close> returns exactly the error of the claim, and afterwards the pod
  \<open>priv-test-pod-target-container\<close> exists in the namespace of the privileged pods, on
  node \<open>targetNode\<close>. The privileged pod does not exist beforehand.
\<close>

theorem Process_privileged_pod_not_running:
  assumes "Name pod = ''test-pod''" and "Namespace pod = ''default''" and "NodeName pod = ''targetNode''"
      and "ContainerStatuses pod
             = [\<lparr>StatusName = ''target-container'', ContainerID = ''docker://containerid''\<rparr>]"
      and "Annotations pod = Some al"
      and "map_of al AnnotationExecuteStatus = Some StatusActive"
      and "map_of al AnnotationExecuteContainer = Some ''target-container''"
      and "map_of al AnnotationExecuteAction = Some ''target-action''"
      and "PrivPodTimeout args = 3"
      and "privPodName rs = ''priv-test-pod-target-container''"
      and "\<forall>e \<in> set evs. \<exists>p. e = PodEvent p \<and> Phase p \<noteq> PodRunning"
      and "w (ArgsNamespace args, ''priv-test-pod-target-container'') = None"
  shows "\<exists>p' w'. Process (fakeClientset evs run) args oldPodResource pod rs w
           = (Inl (Err ''unable to act upon annotation privileged-command-status change to active: privileged pod priv-test-pod-target-container is not running after 3 seconds, it is currently in  phase''),
              p', w')
         \<and> (\<exists>q. w' (ArgsNamespace args, ''priv-test-pod-target-container'') = Some q
                \<and> Name q = ''priv-test-pod-target-container'' \<and> NodeName q = ''targetNode'')"
proof -
  let ?cl = "fakeClientset evs run"
  define p1 where
    "p1 = pod\<lparr>Annotations := Some (AList.update AnnotationExecuteStatus StatusInProgress al)\<rparr>"
  define w1 where
    "w1 = snd (snd (updatePrivilegedCommandExecutorAnnotation ?cl (Namespace pod) pod StatusInProgress w))"
  have u: "updatePrivilegedCommandExecutorAnnotation ?cl (Namespace pod) pod StatusInProgress w
             = (Inr (), p1, w1)"
    unfolding w1_def p1_def using assms(1,2,5)
    by (cases "w (''default'', ''test-pod'')")
       (simp_all add: updatePrivilegedCommandExecutorAnnotation_def applyAnnotationUpdateOnPod_def
          applyPatchForAnnotation_def fakeClientset_def Let_def)
  have w1: "w1 (ArgsNamespace args, ''priv-test-pod-target-container'') = None"
    unfolding w1_def using assms(1,2,5,12)
    by (cases "w (''default'', ''test-pod'')")
       (simp_all add: updatePrivilegedCommandExecutorAnnotation_def applyAnnotationUpdateOnPod_def
          applyPatchForAnnotation_def fakeClientset_def Let_def)
  have c: "annotation (Annotations p1) AnnotationExecuteContainer = ''target-container''"
    using assms(7) by (simp add: p1_def annotation_update keys_differ) (simp add: annotation_def)
  have d: "detectContainerID (ContainerStatuses p1) ''target-container'' [] = Inr ''containerid''"
    using assms(4) by (simp add: p1_def)
  have n: "getNodeName p1 = Inr ''targetNode''"
    using assms(3) by (simp add: p1_def getNodeName_def)
  define w2 where
    "w2 = w1((ArgsNamespace args, ''priv-test-pod-target-container'')
               \<mapsto> privilegedPodSpec args ''priv-test-pod-target-container'' ''targetNode''
                    (ArgsNamespace args))"
  have cr: "createPrivilegedPod ?cl args (ArgsNamespace args) ''targetNode'' rs w1
          = (Inl (Err ''privileged pod priv-test-pod-target-container is not running after 3 seconds, it is currently in  phase''), w2)"
    unfolding w2_def using w1 assms(9,10) waitRunning_never[OF assms(11)]
    by (simp add: createPrivilegedPod_def createPod_def fakeClientset_def privilegedPodSpec_def
        show_int_def digits_of.simps)
  have h: "handleActiveStatus ?cl args oldPodResource pod rs w
          = (Inl (Err ''privileged pod priv-test-pod-target-container is not running after 3 seconds, it is currently in  phase''), p1, w2)"
    by (simp add: handleActiveStatus_def u c d n cr)
  have s: "annotation (Annotations pod) AnnotationExecuteStatus = StatusActive"
    using assms(5,6) by (simp add: annotation_def)
  have P: "Process ?cl args oldPodResource pod rs w
          = (Inl (Err ''unable to act upon annotation privileged-command-status change to active: privileged pod priv-test-pod-target-container is not running after 3 seconds, it is currently in  phase''), p1, w2)"
    by (simp add: Process_def s h) (simp add: AnnotationExecuteStatus_def StatusActive_def)
  have Q: "\<exists>q. w2 (ArgsNamespace args, ''priv-test-pod-target-container'') = Some q
                \<and> Name q = ''priv-test-pod-target-container'' \<and> NodeName q = ''targetNode''"
    by (simp add: w2_def privilegedPodSpec_def)
  show ?thesis
    apply (rule exI[of _ p1], rule exI[of _ w2])
    apply (rule conjI)
     apply (rule P)
    apply (rule Q)
    done
qed

theorem Process_privileged_pod_not_running_witness:
  "\<exists>p' w'. Process (fakeClientset [] (\<lambda>c. ExecutorError [])) testArgs targetPodSpecWithNode
              (annotatedPod StatusActive) currRequest Map.empty
           = (Inl (Err ''unable to act upon annotation privileged-command-status change to active: privileged pod priv-test-pod-target-container is not running after 3 seconds, it is currently in  phase''),
              p', w')
         \<and> (\<exists>q. w' (ArgsNamespace testArgs, ''priv-test-pod-target-container'') = Some q
                \<and> Name q = ''priv-test-pod-target-container'' \<and> NodeName q = ''targetNode'')"
  by (rule Process_privileged_pod_not_running
        [where al = "[(''init-annotation1'', ''init-value1''), (''init-annotation2'', ''init-value2'')]
                     @ protocolAnnotations StatusActive"])
     (simp_all add: fixture_defs protocol_defs)

text \<open>
  C2, as the claim states it, fails: on the pod of the tests with its only status entry of
  the name \<open>target-container\<close> moved to the init-container statuses, the active handler
  resolves nothing and returns the error for a container without identifier.
\<close>

theorem init_container_status_not_scanned:
  "fst (handleActiveStatus (fakeClientset [] (\<lambda>c. ExecutorError [])) testArgs targetPodSpecWithNode
          ((annotatedPod StatusActive)
             \<lparr>InitContainerStatuses := [targetContainerStatus], ContainerStatuses := []\<rparr>)
          currRequest Map.empty)
     = Inl (Err ''no matching container ID for container target-container on pod test-pod under namespace default'')"
  by (simp add: handleActiveStatus_def updatePrivilegedCommandExecutorAnnotation_def
      applyAnnotationUpdateOnPod_def applyPatchForAnnotation_def fakeClientset_def
      annotation_def fixture_defs protocol_defs)

text \<open>
  C2, amended. The resolution reads the regular container statuses only. For every pod
  none of whose regular status entries has the name given by the execute-container
  annotation, whatever its init-container statuses are, the active handler fails with
  the error \<open>no matching container ID\<close> as soon as the status \<open>in-progress\<close> is written;
  no privileged pod is created.
\<close>

theorem handleActiveStatus_no_regular_match:
  assumes "updatePrivilegedCommandExecutorAnnotation cl (Namespace pod) pod StatusInProgress w
             = (Inr (), p, w1)"
      and "\<forall>s \<in> set (ContainerStatuses pod).
             StatusName s \<noteq> annotation (Annotations pod) AnnotationExecuteContainer"
  shows "handleActiveStatus cl args oldPodResource pod rs w
           = (Inl (Err (''no matching container ID for container ''
                        @ annotation (Annotations pod) AnnotationExecuteContainer
                        @ '' on pod '' @ Name pod @ '' under namespace '' @ Namespace pod)), p, w1)"
proof -
  have p: "p = pod\<lparr>Annotations := Some (AList.update AnnotationExecuteStatus StatusInProgress
                                          (entries (Annotations pod)))\<rparr>"
    using assms(1) by (rule update_status_pod)
  have c: "annotation (Annotations p) AnnotationExecuteContainer
             = annotation (Annotations pod) AnnotationExecuteContainer"
    by (simp add: p annotation_update annotation_entries keys_differ)
  have d: "detectContainerID (ContainerStatuses p)
             (annotation (Annotations pod) AnnotationExecuteContainer) [] = Inr []"
    using assms(2) by (simp add: p detectContainerID_no_match)
  have n: "Name p = Name pod" "Namespace p = Namespace pod" by (simp_all add: p)
  show ?thesis
    by (simp add: handleActiveStatus_def assms(1) d c n)
qed

theorem handleActiveStatus_no_regular_match_witness:
  "handleActiveStatus (fakeClientset [] (\<lambda>c. ExecutorError [])) testArgs targetPodSpecWithNode
     ((annotatedPod StatusActive)
        \<lparr>InitContainerStatuses := [targetContainerStatus],
         ContainerStatuses := [\<lparr>StatusName = ''sidecar'', ContainerID = ''docker://sidecarid''\<rparr>]\<rparr>)
     currRequest Map.empty
   = (Inl (Err ''no matching container ID for container target-container on pod test-pod under namespace default''),
      (annotatedPod StatusInProgress)
        \<lparr>InitContainerStatuses := [targetContainerStatus],
         ContainerStatuses := [\<lparr>StatusName = ''sidecar'', ContainerID = ''docker://sidecarid''\<rparr>]\<rparr>,
      Map.empty)"
proof -
  let ?pod = "(annotatedPod StatusActive)
                \<lparr>InitContainerStatuses := [targetContainerStatus],
                 ContainerStatuses := [\<lparr>StatusName = ''sidecar'', ContainerID = ''docker://sidecarid''\<rparr>]\<rparr>"
  let ?p = "(annotatedPod StatusInProgress)
                \<lparr>InitContainerStatuses := [targetContainerStatus],
                 ContainerStatuses := [\<lparr>StatusName = ''sidecar'', ContainerID = ''docker://sidecarid''\<rparr>]\<rparr>"
  have 3: "annotation (Annotations ?pod) AnnotationExecuteContainer = ''target-container''"
    "Name ?pod = ''test-pod''" "Namespace ?pod = ''default''"
    by (simp_all add: annotation_def fixture_defs protocol_defs)
  have 1: "updatePrivilegedCommandExecutorAnnotation (fakeClientset [] (\<lambda>c. ExecutorError []))
             (Namespace ?pod) ?pod StatusInProgress Map.empty = (Inr (), ?p, Map.empty)"
    by (simp add: updatePrivilegedCommandExecutorAnnotation_def applyAnnotationUpdateOnPod_def
        applyPatchForAnnotation_def fakeClientset_def fixture_defs protocol_defs)
  have 2: "\<forall>s \<in> set (ContainerStatuses ?pod).
             StatusName s \<noteq> annotation (Annotations ?pod) AnnotationExecuteContainer"
    by (simp add: annotation_def fixture_defs protocol_defs)
  from handleActiveStatus_no_regular_match[OF 1 2, of testArgs targetPodSpecWithNode currRequest]
  show ?thesis
    by (simp only: 3) simp
qed

text \<open>
  C3. On the pod of the tests with the runtime identifier of \<open>target-container\<close> not yet
  populated, the active handler does not return the error for a container without
  identifier: the slice \<open>p.ContainerID[9:]\<close> of the empty string is out of range and the
  handler panics, after it has written the status \<open>in-progress\<close>.
\<close>

theorem handleActiveStatus_empty_container_id_panics:
  "handleActiveStatus (fakeClientset [] (\<lambda>c. ExecutorError [])) testArgs targetPodSpecWithNode
     ((annotatedPod StatusActive)
        \<lparr>ContainerStatuses := [\<lparr>StatusName = ''target-container'', ContainerID = []\<rparr>]\<rparr>)
     currRequest Map.empty
   = (Inl Panic,
      (annotatedPod StatusInProgress)
        \<lparr>ContainerStatuses := [\<lparr>StatusName = ''target-container'', ContainerID = []\<rparr>]\<rparr>,
      Map.empty)"
  by (simp add: handleActiveStatus_def updatePrivilegedCommandExecutorAnnotation_def
      applyAnnotationUpdateOnPod_def applyPatchForAnnotation_def fakeClientset_def
      annotation_def fixture_defs protocol_defs)

text \<open>
  C4, as the claim states it, fails on the pod object: deleting \<open>init-annotation1\<close> and the
  absent status key from the pod of the tests fails on the status key, but
  \<open>init-annotation1\<close>, which was present, is gone from the pod object.
\<close>

theorem deletion_not_all_or_nothing:
  "fst (applyAnnotationDeletionOnPod (fakeClientset [] (\<lambda>c. ExecutorError [])) ''default''
          [''init-annotation1'', AnnotationExecuteStatus] targetPodSpecWithNode Map.empty)
     = Inl (Err ''annotation privileged-command-status to be deleted does not exist'')
   \<and> annotation (Annotations targetPodSpecWithNode) ''init-annotation1'' = ''init-value1''
   \<and> annotation (Annotations (fst (snd
        (applyAnnotationDeletionOnPod (fakeClientset [] (\<lambda>c. ExecutorError [])) ''default''
           [''init-annotation1'', AnnotationExecuteStatus] targetPodSpecWithNode Map.empty))))
        ''init-annotation1'' = []"
  by (simp add: applyAnnotationDeletionOnPod_def annotation_def fixture_defs protocol_defs)

text \<open>
  C4, amended. If a key of the list is not in the annotation map of the pod, the deletion
  fails with the missing-annotation error for the first key \<open>k'\<close> of the list that reads
  as empty when the loop reaches it: the keys \<open>pre\<close> before it in the list are distinct
  and hold non-empty values, and \<open>k'\<close> is absent, holds the empty string or repeats a key
  of \<open>pre\<close>. No patch is sent: the world is the one before the call. On the pod object
  nothing but the annotations changes; exactly the keys of \<open>pre\<close> are removed and every
  other annotation keeps its value.
\<close>

theorem deletion_missing_key_fails:
  assumes "k \<in> set ks" and "map_of (entries (Annotations pod)) k = None"
  shows "\<exists>pre k' post pod'. ks = pre @ k' # post
           \<and> distinct pre
           \<and> (\<forall>j \<in> set pre. annotation (Annotations pod) j \<noteq> [])
           \<and> (annotation (Annotations pod) k' = [] \<or> k' \<in> set pre)
           \<and> annotation (Annotations pod') k' = []
           \<and> applyAnnotationDeletionOnPod cl ns ks pod w
               = (Inl (Err (''annotation '' @ k' @ '' to be deleted does not exist'')), pod', w)
           \<and> pod' = pod\<lparr>Annotations :=
                          map_option (\<lambda>al. fold AList.delete pre al) (Annotations pod)\<rparr>
           \<and> pod' = pod\<lparr>Annotations := Annotations pod'\<rparr>
           \<and> (\<forall>j. map_of (entries (Annotations pod')) j
                    = (if j \<in> set pre then None else map_of (entries (Annotations pod)) j))"
proof -
  from assms(2) have "annotation (Annotations pod) k = []" by (rule annotation_absent)
  from deleteKeys_first_missing[OF assms(1) this] obtain pre k' post where
    1: "ks = pre @ k' # post" and
    d: "distinct pre" and
    n: "\<forall>j \<in> set pre. annotation (Annotations pod) j \<noteq> []" and
    e: "annotation (Annotations pod) k' = [] \<or> k' \<in> set pre" and
    2: "deleteKeys ks pod = (Inl (Err (''annotation '' @ k' @ '' to be deleted does not exist'')),
          pod\<lparr>Annotations := map_option (\<lambda>al. fold AList.delete pre al) (Annotations pod)\<rparr>)"
    by (elim exE conjE)
  define pod' where
    "pod' = pod\<lparr>Annotations := map_option (\<lambda>al. fold AList.delete pre al) (Annotations pod)\<rparr>"
  have 3: "\<forall>j. map_of (entries (Annotations pod')) j
                = (if j \<in> set pre then None else map_of (entries (Annotations pod)) j)"
    unfolding pod'_def
    by (cases "Annotations pod") (simp_all add: entries_def map_of_fold_delete)
  have 4: "pod' = pod\<lparr>Annotations := Annotations pod'\<rparr>" unfolding pod'_def by simp
  have 5: "annotation (Annotations pod') k' = []"
  proof (cases "Annotations pod")
    case None
    then show ?thesis by (simp add: pod'_def annotation_def)
  next
    case (Some al)
    have "map_of (entries (Annotations pod')) k'
            = (if k' \<in> set pre then None else map_of (entries (Annotations pod)) k')"
      using 3 by (rule spec)
    with e Some show ?thesis
      by (auto simp: pod'_def annotation_def entries_def map_of_fold_delete split: option.splits)
  qed
  have 6: "applyAnnotationDeletionOnPod cl ns ks pod w
               = (Inl (Err (''annotation '' @ k' @ '' to be deleted does not exist'')), pod', w)"
    unfolding pod'_def by (rule deleteKeys_fails_apply[OF 2])
  have 7: "pod' = pod\<lparr>Annotations :=
                          map_option (\<lambda>al. fold AList.delete pre al) (Annotations pod)\<rparr>"
    by (rule pod'_def)
  show ?thesis
    apply (rule exI[of _ pre], rule exI[of _ k'], rule exI[of _ post], rule exI[of _ pod'])
    apply (intro conjI)
            apply (rule 1)
           apply (rule d)
          apply (rule n)
         apply (rule e)
        apply (rule 5)
       apply (rule 6)
      apply (rule 7)
     apply (rule 4)
    apply (rule 3)
    done
qed

theorem deletion_missing_key_fails_witness:
  "applyAnnotationDeletionOnPod (fakeClientset [] (\<lambda>c. ExecutorError [])) ''default''
     [''init-annotation1'', AnnotationExecuteStatus] targetPodSpecWithNode
     [(''default'', ''test-pod'') \<mapsto> targetPodSpecWithNode]
   = (Inl (Err ''annotation privileged-command-status to be deleted does not exist''),
      targetPodSpecWithNode\<lparr>Annotations := Some [(''init-annotation2'', ''init-value2'')]\<rparr>,
      [(''default'', ''test-pod'') \<mapsto> targetPodSpecWithNode])"
proof -
  let ?cl = "fakeClientset [] (\<lambda>c. ExecutorError [])"
  let ?w = "[(''default'', ''test-pod'') \<mapsto> targetPodSpecWithNode]"
  have h1: "AnnotationExecuteStatus \<in> set [''init-annotation1'', AnnotationExecuteStatus]"
    by simp
  have h2: "map_of (entries (Annotations targetPodSpecWithNode)) AnnotationExecuteStatus = None"
    by (simp add: entries_def targetPodSpecWithNode_def protocol_defs)
  from deletion_missing_key_fails[OF h1 h2, of ?cl "''default''" ?w]
  obtain pre k' post pod' where
    s: "[''init-annotation1'', AnnotationExecuteStatus] = pre @ k' # post" and
    e: "annotation (Annotations targetPodSpecWithNode) k' = [] \<or> k' \<in> set pre" and
    r: "applyAnnotationDeletionOnPod ?cl ''default''
          [''init-annotation1'', AnnotationExecuteStatus] targetPodSpecWithNode ?w
        = (Inl (Err (''annotation '' @ k' @ '' to be deleted does not exist'')), pod', ?w)" and
    p: "pod' = targetPodSpecWithNode\<lparr>Annotations :=
              map_option (\<lambda>al. fold AList.delete pre al) (Annotations targetPodSpecWithNode)\<rparr>"
    by (elim exE conjE)
  have i: "annotation (Annotations targetPodSpecWithNode) ''init-annotation1'' \<noteq> []"
    by (simp add: annotation_def targetPodSpecWithNode_def)
  from s have "(pre = [] \<and> k' = ''init-annotation1'')
             \<or> (pre = [''init-annotation1''] \<and> k' = AnnotationExecuteStatus)"
    by (cases pre) (auto simp: Cons_eq_append_conv)
  with e i have c: "pre = [''init-annotation1'']" "k' = AnnotationExecuteStatus"
    by auto
  have "pod' = targetPodSpecWithNode\<lparr>Annotations := Some [(''init-annotation2'', ''init-value2'')]\<rparr>"
    unfolding p c by (simp add: targetPodSpecWithNode_def)
  with r c show ?thesis
    by (simp add: AnnotationExecuteStatus_def)
qed

text \<open>
  C5. For every resolved PID \<open>p\<close> and every token list \<open>ts\<close> of the user, the command
  that \<open>executeNsenterCommand\<close> runs through \<open>execCommandOnPod\<close> is \<open>nsenter --target p
  --ipc --uts --net --pid\<close> followed by \<open>ts\<close>. The fixed tokens name no mount namespace: a
  token \<open>--mount\<close> is in the vector only if it is \<open>p\<close> or one of the user's own tokens.
\<close>

theorem executeNsenterCommand_vector:
  assumes "getPID cl rce w = (Inr p, w')"
  shows "\<exists>cmd. cmd = [''nsenter'', ''--target'', p, ''--ipc'', ''--uts'', ''--net'', ''--pid''] @ ts
           \<and> executeNsenterCommand cl rce ts w = execCommandOnPod cl rce cmd w'
           \<and> (''--mount'' \<in> set cmd \<longleftrightarrow> p = ''--mount'' \<or> ''--mount'' \<in> set ts)"
  using assms by (auto simp add: executeNsenterCommand_def)

theorem executeNsenterCommand_vector_witness:
  "executeNsenterCommand
     (fakeClientset [] (\<lambda>c. if take 1 c = [''docker'']
                             then Streamed (CHR 0x27 # ''28400'' @ [CHR 0x27, CHR 0x0A]) [] None
                             else Streamed (join c) [] None))
     \<lparr>rceNamespace = ''default'', rceRequestSpec = currRequest, rceContainer = ''target-container'',
      rceContainerID = ''containerid'', rcePrivilegeContainer = PrivilegeContainer\<rparr>
     [''gcore'', ''1''] Map.empty
   = (Inr ''nsenter --target 28400 --ipc --uts --net --pid gcore 1'', Map.empty)"
proof -
  let ?rce = "\<lparr>rceNamespace = ''default'', rceRequestSpec = currRequest, rceContainer = ''target-container'',
      rceContainerID = ''containerid'', rcePrivilegeContainer = PrivilegeContainer\<rparr>"
  let ?cl = "fakeClientset [] (\<lambda>c. if take 1 c = [''docker'']
                             then Streamed (CHR 0x27 # ''28400'' @ [CHR 0x27, CHR 0x0A]) [] None
                             else Streamed (join c) [] None)"
  have h: "getPID ?cl ?rce Map.empty = (Inr ''28400'', Map.empty)"
    by (simp add: getPID_def execCommandOnPod_def fakeClientset_def)
  from executeNsenterCommand_vector[OF h, of "[''gcore'', ''1'']"]
  have "executeNsenterCommand ?cl ?rce [''gcore'', ''1''] Map.empty
          = execCommandOnPod ?cl ?rce
              ([''nsenter'', ''--target'', ''28400'', ''--ipc'', ''--uts'', ''--net'', ''--pid'']
               @ [''gcore'', ''1'']) Map.empty"
    by blast
  then show ?thesis
    by (simp add: execCommandOnPod_def fakeClientset_def)
qed

text \<open>
  C6. The callback invokes \<open>Process\<close> if and only if the annotation map of the new pod is
  not nil and holds the three protocol keys with non-empty values
  (\<open>handleUpdate_invocations\<close>), but not always exactly once. Take an update of the pod of
  the tests with status \<open>done\<close>, on a cluster that holds the privileged pod and whose API
  server rejects the annotation patch. The done-handler deletes the privileged pod and
  removes the three keys from the pod object before its patch fails; the error path of the
  callback then writes the status \<open>error\<close>, which creates the status entry anew in the map
  that the loop ranges over. When the loop produces that entry, \<open>Process\<close> is invoked a
  second time within the same callback, with the request name derived from the pod
  without its container annotation.
\<close>

theorem handleUpdate_invokes_twice:
  "map privPodName (invoked (handleUpdate
      ((fakeClientset [] (\<lambda>c. ExecutorError []))
         \<lparr>Patch := \<lambda>ns n ops w. (Some ''connection refused'', w)\<rparr>)
      testArgs (\<lambda>n. ''0'') True targetPodSpecWithNode (annotatedPod StatusDone)
      [(''default'', ''priv-test-pod-target-container'') \<mapsto>
         privilegedPodSpec testArgs ''priv-test-pod-target-container'' ''targetNode'' ''default'']))
   = [''priv-test-pod-target-container'', ''priv-test-pod-'']"
  by (simp add: handleUpdate_def updateStep_def Process_def handleDoneStatus_def deletePod_def
      deletePrivilegedCommandExecutorAnnotation_def applyAnnotationDeletionOnPod_def
      applyPatchForAnnotation_def updatePrivilegedCommandExecutorAnnotation_def
      applyAnnotationUpdateOnPod_def fakeClientset_def annotation_def entries_def
      fixture_defs privilegedPodSpec_def protocol_defs ToLower_def replaceUnderscore_def Let_def
      AList.delete_eq)

text \<open>
  C7. The round trip on the in-memory clientset. Let the pod be registered on the cluster
  and let the pod object and the cluster hold the same annotation map \<open>M\<close>. Then the
  upsert of status \<open>active\<close>, container \<open>c\<close> and action \<open>a\<close> (a Go map, in whatever order
  its keys are produced) succeeds, and afterwards the pod object and the pod that \<open>Get\<close>
  reads back from the cluster both hold exactly \<open>M\<close> extended by these three pairs:
  every other key keeps its value and no key is added or removed. All other fields of the
  pod, and all other pods of the cluster, are unchanged.
\<close>

theorem upsert_round_trip:
  assumes "distinct (map fst upd)"
      and "map_of upd = [AnnotationExecuteStatus \<mapsto> StatusActive, AnnotationExecuteContainer \<mapsto> c,
                         AnnotationExecuteAction \<mapsto> a]"
      and "distinct (map fst (entries (Annotations pod)))"
      and "w (ns, Name pod) = Some q"
      and "map_of (entries (Annotations q)) = map_of (entries (Annotations pod))"
      and "applyAnnotationUpdateOnPod (fakeClientset evs run) ns upd pod w = (r, pod', w')"
  shows "r = Inr ()
       \<and> (\<exists>al'. pod' = pod\<lparr>Annotations := Some al'\<rparr> \<and> distinct (map fst al')
              \<and> map_of al' = (map_of (entries (Annotations pod)))
                    (AnnotationExecuteStatus \<mapsto> StatusActive, AnnotationExecuteContainer \<mapsto> c,
                     AnnotationExecuteAction \<mapsto> a))
       \<and> (\<exists>al''. w' = w((ns, Name pod) \<mapsto> q\<lparr>Annotations := Some al''\<rparr>)
              \<and> Get (fakeClientset evs run) ns (Name pod) w'
                  = ((Some (q\<lparr>Annotations := Some al''\<rparr>), None), w')
              \<and> map_of al'' = (map_of (entries (Annotations pod)))
                    (AnnotationExecuteStatus \<mapsto> StatusActive, AnnotationExecuteContainer \<mapsto> c,
                     AnnotationExecuteAction \<mapsto> a))"
proof -
  let ?M3 = "(map_of (entries (Annotations pod)))
                    (AnnotationExecuteStatus \<mapsto> StatusActive, AnnotationExecuteContainer \<mapsto> c,
                     AnnotationExecuteAction \<mapsto> a)"
  from upsert_on_pod_object[OF assms(1) assms(6)] assms(3) obtain al' where
    p: "pod' = pod\<lparr>Annotations := Some al'\<rparr>" and d: "distinct (map fst al')"
    and m0: "map_of al' = map_of (entries (Annotations pod)) ++ map_of upd"
    by auto
  have m: "map_of al' = ?M3" unfolding m0 assms(2) by simp
  from upsert_on_cluster[OF assms(1) assms(3) assms(4) assms(6)] obtain al'' where
    r: "r = Inr ()" and w: "w' = w((ns, Name pod) \<mapsto> q\<lparr>Annotations := Some al''\<rparr>)"
    and c: "\<forall>j. map_of al'' j
                      = (if map_of (entries (Annotations pod')) j = map_of (entries (Annotations pod)) j
                         then map_of (entries (Annotations q)) j
                         else map_of (entries (Annotations pod')) j)"
    by auto
  have e: "entries (Annotations pod') = al'" by (simp add: p entries_def)
  have "map_of al'' j = map_of al' j" for j
    using c[rule_format, of j] by (simp add: e assms(5))
  then have m2: "map_of al'' = ?M3" unfolding m[symmetric] by (rule ext)
  have g: "Get (fakeClientset evs run) ns (Name pod) w'
                  = ((Some (q\<lparr>Annotations := Some al''\<rparr>), None), w')"
    by (simp add: w fakeClientset_def)
  have A: "\<exists>al'. pod' = pod\<lparr>Annotations := Some al'\<rparr> \<and> distinct (map fst al') \<and> map_of al' = ?M3"
    apply (rule exI[of _ al'])
    apply (intro conjI)
      apply (rule p)
     apply (rule d)
    apply (rule m)
    done
  have B: "\<exists>al''. w' = w((ns, Name pod) \<mapsto> q\<lparr>Annotations := Some al''\<rparr>)
              \<and> Get (fakeClientset evs run) ns (Name pod) w'
                  = ((Some (q\<lparr>Annotations := Some al''\<rparr>), None), w')
              \<and> map_of al'' = ?M3"
    apply (rule exI[of _ al''])
    apply (intro conjI)
      apply (rule w)
     apply (rule g)
    apply (rule m2)
    done
  show ?thesis
    apply (intro conjI)
      apply (rule r)
     apply (rule A)
    apply (rule B)
    done
qed

theorem upsert_round_trip_witness:
  "fst (applyAnnotationUpdateOnPod (fakeClientset [] (\<lambda>c. ExecutorError [])) ''default''
          (protocolAnnotations StatusActive) targetPodSpecWithNode
          [(''default'', ''test-pod'') \<mapsto> targetPodSpecWithNode]) = Inr ()
   \<and> (\<exists>al'. fst (snd (applyAnnotationUpdateOnPod (fakeClientset [] (\<lambda>c. ExecutorError []))
                         ''default'' (protocolAnnotations StatusActive) targetPodSpecWithNode
                         [(''default'', ''test-pod'') \<mapsto> targetPodSpecWithNode]))
              = targetPodSpecWithNode\<lparr>Annotations := Some al'\<rparr>
            \<and> distinct (map fst al')
            \<and> map_of al' = (map_of (entries (Annotations targetPodSpecWithNode)))
                  (AnnotationExecuteStatus \<mapsto> StatusActive,
                   AnnotationExecuteContainer \<mapsto> ''target-container'',
                   AnnotationExecuteAction \<mapsto> ''target-action''))
   \<and> (\<exists>al''. snd (snd (applyAnnotationUpdateOnPod (fakeClientset [] (\<lambda>c. ExecutorError []))
                          ''default'' (protocolAnnotations StatusActive) targetPodSpecWithNode
                          [(''default'', ''test-pod'') \<mapsto> targetPodSpecWithNode]))
              = [(''default'', ''test-pod'') \<mapsto> targetPodSpecWithNode\<lparr>Annotations := Some al''\<rparr>]
            \<and> map_of al'' = (map_of (entries (Annotations targetPodSpecWithNode)))
                  (AnnotationExecuteStatus \<mapsto> StatusActive,
                   AnnotationExecuteContainer \<mapsto> ''target-container'',
                   AnnotationExecuteAction \<mapsto> ''target-action''))"
proof -
  let ?cl = "fakeClientset [] (\<lambda>c. ExecutorError [])"
  let ?w = "[(''default'', ''test-pod'') \<mapsto> targetPodSpecWithNode]"
  obtain r pod' w' where
    1: "applyAnnotationUpdateOnPod ?cl ''default'' (protocolAnnotations StatusActive)
          targetPodSpecWithNode ?w = (r, pod', w')"
    by (cases "applyAnnotationUpdateOnPod ?cl ''default'' (protocolAnnotations StatusActive)
                 targetPodSpecWithNode ?w") auto
  have 2: "distinct (map fst (protocolAnnotations StatusActive))"
    by (simp add: protocolAnnotations_def protocol_defs)
  have 3: "map_of (protocolAnnotations StatusActive)
             = [AnnotationExecuteStatus \<mapsto> StatusActive,
                AnnotationExecuteContainer \<mapsto> ''target-container'',
                AnnotationExecuteAction \<mapsto> ''target-action'']"
    by (auto simp: protocolAnnotations_def protocol_defs)
  have 4: "distinct (map fst (entries (Annotations targetPodSpecWithNode)))"
    by (simp add: entries_def targetPodSpecWithNode_def)
  have 5: "?w (''default'', Name targetPodSpecWithNode) = Some targetPodSpecWithNode"
    by (simp add: targetPodSpecWithNode_def)
  have 6: "map_of (entries (Annotations targetPodSpecWithNode))
             = map_of (entries (Annotations targetPodSpecWithNode))"
    by (rule refl)
  have n: "Name targetPodSpecWithNode = ''test-pod''"
    by (simp add: targetPodSpecWithNode_def)
  from upsert_round_trip[OF 2 3 4 5 6 1] obtain al' al'' where
    r: "r = Inr ()"
    and a: "pod' = targetPodSpecWithNode\<lparr>Annotations := Some al'\<rparr>" "distinct (map fst al')"
      "map_of al' = (map_of (entries (Annotations targetPodSpecWithNode)))
                  (AnnotationExecuteStatus \<mapsto> StatusActive,
                   AnnotationExecuteContainer \<mapsto> ''target-container'',
                   AnnotationExecuteAction \<mapsto> ''target-action'')"
    and b: "w' = ?w((''default'', Name targetPodSpecWithNode) \<mapsto>
                     targetPodSpecWithNode\<lparr>Annotations := Some al''\<rparr>)"
      "map_of al'' = (map_of (entries (Annotations targetPodSpecWithNode)))
                  (AnnotationExecuteStatus \<mapsto> StatusActive,
                   AnnotationExecuteContainer \<mapsto> ''target-container'',
                   AnnotationExecuteAction \<mapsto> ''target-action'')"
    by (elim conjE exE)
  have b': "w' = [(''default'', ''test-pod'') \<mapsto> targetPodSpecWithNode\<lparr>Annotations := Some al''\<rparr>]"
    unfolding b(1) n by simp
  show ?thesis
    unfolding 1 fst_conv snd_conv
    apply (intro conjI)
      apply (rule r)
     apply (rule exI[of _ al'])
     apply (intro conjI)
       apply (rule a(1))
      apply (rule a(2))
     apply (rule a(3))
    apply (rule exI[of _ al''])
    apply (intro conjI)
     apply (rule b')
    apply (rule b(2))
    done
qed

text \<open>
  C8. A key that is in the annotation map with the empty string as its value is treated
  as an absent key: for every pod and every deletion list that holds such a key, the
  deletion fails with the error \<open>annotation ... to be deleted does not exist\<close> for a key
  of the list (for the key itself when it comes first), without a patch, and with the
  very result that the same call has on the pod from which the key is removed.
\<close>

theorem deletion_empty_value_as_absent:
  assumes "Annotations pod = Some al" and "map_of al k = Some []" and "k \<in> set ks"
  shows "(\<exists>k' \<in> set ks. applyAnnotationDeletionOnPod cl ns ks pod w
            = (Inl (Err (''annotation '' @ k' @ '' to be deleted does not exist'')),
               snd (deleteKeys ks pod), w))
       \<and> (\<forall>rest. ks = k # rest \<longrightarrow> applyAnnotationDeletionOnPod cl ns ks pod w
            = (Inl (Err (''annotation '' @ k @ '' to be deleted does not exist'')), pod, w))
       \<and> fst (applyAnnotationDeletionOnPod cl ns ks pod w)
           = fst (applyAnnotationDeletionOnPod cl ns ks
                    (pod\<lparr>Annotations := Some (AList.delete k al)\<rparr>) w)"
proof (intro conjI allI impI)
  have e: "annotation (Annotations pod) k = []"
    using assms(1,2) by (simp add: annotation_def)
  from deleteKeys_missing[OF assms(3) e] obtain pre k' post where
    1: "ks = pre @ k' # post" and
    2: "deleteKeys ks pod = (Inl (Err (''annotation '' @ k' @ '' to be deleted does not exist'')),
          pod\<lparr>Annotations := map_option (\<lambda>al. fold AList.delete pre al) (Annotations pod)\<rparr>)"
    by blast
  from 1 have "k' \<in> set ks" by simp
  moreover from deleteKeys_fails_apply[OF 2, of cl ns w] 2
  have 3: "applyAnnotationDeletionOnPod cl ns ks pod w
       = (Inl (Err (''annotation '' @ k' @ '' to be deleted does not exist'')),
          snd (deleteKeys ks pod), w)"
    by simp
  ultimately show "\<exists>k' \<in> set ks. applyAnnotationDeletionOnPod cl ns ks pod w
            = (Inl (Err (''annotation '' @ k' @ '' to be deleted does not exist'')),
               snd (deleteKeys ks pod), w)"
    by blast
  let ?q = "pod\<lparr>Annotations := Some (AList.delete k al)\<rparr>"
  have same: "\<And>j. annotation (Annotations pod) j = annotation (Annotations ?q) j"
    using assms(1,2) by (simp add: annotation_def delete_conv')
  have eqf: "fst (deleteKeys ks pod) = fst (deleteKeys ks ?q)"
    by (rule deleteKeys_same_reads) (rule same)
  obtain q' where
    "deleteKeys ks ?q = (Inl (Err (''annotation '' @ k' @ '' to be deleted does not exist'')), q')"
    using eqf 2 by (cases "deleteKeys ks ?q") simp
  from deleteKeys_fails_apply[OF this, of cl ns w] 3
  show "fst (applyAnnotationDeletionOnPod cl ns ks pod w)
           = fst (applyAnnotationDeletionOnPod cl ns ks ?q w)"
    by simp
  fix rest
  assume "ks = k # rest"
  then show "applyAnnotationDeletionOnPod cl ns ks pod w
            = (Inl (Err (''annotation '' @ k @ '' to be deleted does not exist'')), pod, w)"
    using e by (simp add: applyAnnotationDeletionOnPod_def)
qed

theorem deletion_empty_value_as_absent_witness:
  "applyAnnotationDeletionOnPod (fakeClientset [] (\<lambda>c. ExecutorError [])) ''default''
     [AnnotationExecuteStatus, AnnotationExecuteContainer, AnnotationExecuteAction]
     (annotatedPod []) Map.empty
   = (Inl (Err ''annotation privileged-command-status to be deleted does not exist''),
      annotatedPod [], Map.empty)"
proof -
  let ?al = "[(''init-annotation1'', ''init-value1''), (''init-annotation2'', ''init-value2'')]
             @ protocolAnnotations []"
  have 1: "Annotations (annotatedPod []) = Some ?al"
    by (simp add: annotatedPod_def)
  have 2: "map_of ?al AnnotationExecuteStatus = Some []"
    by (simp add: protocolAnnotations_def protocol_defs)
  have 3: "AnnotationExecuteStatus
             \<in> set [AnnotationExecuteStatus, AnnotationExecuteContainer, AnnotationExecuteAction]"
    by simp
  from deletion_empty_value_as_absent[OF 1 2 3, of "fakeClientset [] (\<lambda>c. ExecutorError [])"
         "''default''" Map.empty]
  have "applyAnnotationDeletionOnPod (fakeClientset [] (\<lambda>c. ExecutorError [])) ''default''
          [AnnotationExecuteStatus, AnnotationExecuteContainer, AnnotationExecuteAction]
          (annotatedPod []) Map.empty
        = (Inl (Err (''annotation '' @ AnnotationExecuteStatus @ '' to be deleted does not exist'')),
           annotatedPod [], Map.empty)"
    by blast
  then show ?thesis by (simp add: AnnotationExecuteStatus_def)
qed

text \<open>
  C9. The done-handler deletes the privileged pod before it touches any annotation. For
  every invocation in which that deletion fails, the handler returns the error of the
  deletion; the pod object is returned as it was, and the world is the one that the
  failed \<open>Delete\<close> call left: no patch and no other call follows.
\<close>

theorem handleDoneStatus_delete_fails:
  assumes "Delete cl (ArgsNamespace args) (privPodName rs) w = (Some e, w')"
  shows "deletePod cl (ArgsNamespace args) rs w
           = (Inl (Err (''failed to delete pod '' @ privPodName rs @ '': '' @ e)), w')
       \<and> handleDoneStatus cl args oldPodResource newPodResource rs w
           = (Inl (Err (''failed to delete pod '' @ privPodName rs @ '': '' @ e)), newPodResource, w')"
  using assms by (simp add: handleDoneStatus_def deletePod_def)

theorem handleDoneStatus_delete_fails_witness:
  "handleDoneStatus (fakeClientset [] (\<lambda>c. ExecutorError [])) testArgs targetPodSpecWithNode
     (annotatedPod StatusDone) currRequest [(''default'', ''test-pod'') \<mapsto> annotatedPod StatusDone]
   = (Inl (Err (''failed to delete pod priv-test-pod-target-container: pods '' @ CHR 0x22
              # ''priv-test-pod-target-container'' @ CHR 0x22 # '' not found'')),
      annotatedPod StatusDone, [(''default'', ''test-pod'') \<mapsto> annotatedPod StatusDone])"
proof -
  let ?w = "[(''default'', ''test-pod'') \<mapsto> annotatedPod StatusDone]"
  have h: "Delete (fakeClientset [] (\<lambda>c. ExecutorError [])) (ArgsNamespace testArgs)
             (privPodName currRequest) ?w
           = (Some (''pods '' @ CHR 0x22 # ''priv-test-pod-target-container'' @ CHR 0x22
                    # '' not found''), ?w)"
    by (simp add: fakeClientset_def testArgs_def currRequest_def)
  from handleDoneStatus_delete_fails[OF h, THEN conjunct2] show ?thesis
    by (simp add: currRequest_def)
qed

text \<open>
  C10. \<open>getPID\<close> drops the first byte and the last two bytes of the standard output of a
  successful inspection, and it is defined only when that output has at least three
  bytes: on a shorter output the slice is out of range, and \<open>getPID\<close>, and with it
  \<open>executeNsenterCommand\<close>, panics.
\<close>

theorem getPID_slice_bounds:
  assumes "execCommandOnPod cl rce
             [''docker'', ''inspect'', ''--format'', CHR 0x27 # ''{{ .State.Pid }}'' @ [CHR 0x27],
              rceContainerID rce] w = (Inr out, w')"
  shows "(length out < 3 \<longrightarrow> getPID cl rce w = (Inl Panic, w')
                          \<and> executeNsenterCommand cl rce ts w = (Inl Panic, w'))
       \<and> (3 \<le> length out \<longrightarrow> (\<exists>a pid b c. out = a # pid @ [b, c]))
       \<and> (\<forall>a pid b c. out = a # pid @ [b, c] \<longrightarrow> getPID cl rce w = (Inr pid, w'))"
proof (intro conjI impI allI)
  assume short: "length out < 3"
  then show g: "getPID cl rce w = (Inl Panic, w')"
    using assms by (simp add: getPID_def)
  show "executeNsenterCommand cl rce ts w = (Inl Panic, w')"
    by (simp add: executeNsenterCommand_def g)
next
  assume long: "3 \<le> length out"
  then obtain a rest where 1: "out = a # rest" by (cases out) auto
  with long have "rest \<noteq> []" by auto
  then obtain r1 c where 2: "rest = r1 @ [c]" by (cases rest rule: rev_cases) auto
  with 1 long have "r1 \<noteq> []" by auto
  then obtain pid b where "r1 = pid @ [b]" by (cases r1 rule: rev_cases) auto
  with 1 2 have "out = a # pid @ [b, c]" by simp
  then show "\<exists>a pid b c. out = a # pid @ [b, c]" by blast
next
  fix a pid b c
  assume "out = a # pid @ [b, c]"
  then show "getPID cl rce w = (Inr pid, w')"
    using assms by (simp add: getPID_def)
qed

theorem getPID_slice_bounds_witness:
  "getPID (fakeClientset [] (\<lambda>c. Streamed (CHR 0x27 # ''28400'' @ [CHR 0x27, CHR 0x0A]) [] None))
     \<lparr>rceNamespace = ''default'', rceRequestSpec = currRequest, rceContainer = ''target-container'',
      rceContainerID = ''containerid'', rcePrivilegeContainer = PrivilegeContainer\<rparr> Map.empty
   = (Inr ''28400'', Map.empty)
   \<and> getPID (fakeClientset [] (\<lambda>c. Streamed ''7'' [] None))
     \<lparr>rceNamespace = ''default'', rceRequestSpec = currRequest, rceContainer = ''target-container'',
      rceContainerID = ''containerid'', rcePrivilegeContainer = PrivilegeContainer\<rparr> Map.empty
   = (Inl Panic, Map.empty)"
proof
  let ?rce = "\<lparr>rceNamespace = ''default'', rceRequestSpec = currRequest, rceContainer = ''target-container'',
      rceContainerID = ''containerid'', rcePrivilegeContainer = PrivilegeContainer\<rparr>"
  let ?cl = "fakeClientset [] (\<lambda>c. Streamed (CHR 0x27 # ''28400'' @ [CHR 0x27, CHR 0x0A]) [] None)"
  have h: "execCommandOnPod ?cl ?rce
             [''docker'', ''inspect'', ''--format'', CHR 0x27 # ''{{ .State.Pid }}'' @ [CHR 0x27],
              rceContainerID ?rce] Map.empty
           = (Inr (CHR 0x27 # ''28400'' @ [CHR 0x27, CHR 0x0A]), Map.empty)"
    by (simp add: execCommandOnPod_def fakeClientset_def)
  from getPID_slice_bounds[OF h]
  have "\<forall>a pid b c. CHR 0x27 # ''28400'' @ [CHR 0x27, CHR 0x0A] = a # pid @ [b, c]
          \<longrightarrow> getPID ?cl ?rce Map.empty = (Inr pid, Map.empty)"
    by (rule conjunct2[THEN conjunct2])
  then show "getPID ?cl ?rce Map.empty = (Inr ''28400'', Map.empty)"
    by blast
next
  let ?rce = "\<lparr>rceNamespace = ''default'', rceRequestSpec = currRequest, rceContainer = ''target-container'',
      rceContainerID = ''containerid'', rcePrivilegeContainer = PrivilegeContainer\<rparr>"
  let ?cl = "fakeClientset [] (\<lambda>c. Streamed ''7'' [] None)"
  have h: "execCommandOnPod ?cl ?rce
             [''docker'', ''inspect'', ''--format'', CHR 0x27 # ''{{ .State.Pid }}'' @ [CHR 0x27],
              rceContainerID ?rce] Map.empty
           = (Inr ''7'', Map.empty)"
    by (simp add: execCommandOnPod_def fakeClientset_def)
  from getPID_slice_bounds[OF h, of "[]"]
  have "length ''7'' < 3 \<longrightarrow> getPID ?cl ?rce Map.empty = (Inl Panic, Map.empty)
                          \<and> executeNsenterCommand ?cl ?rce [] Map.empty = (Inl Panic, Map.empty)"
    by (rule conjunct1)
  then show "getPID ?cl ?rce Map.empty = (Inl Panic, Map.empty)"
    by simp
qed

end
